theory Spec2Isabelle
  imports Main "HOL-Library.List_Lexorder"
begin

section \<open>The machine: sizes, failures, element values\<close>

text \<open>
  The development follows \<^verbatim>\<open>array_ptr.h\<close> and \<^verbatim>\<open>simple_vector.h\<close>. It describes a build
  with assertions enabled on a 64-bit target.

  \<^item> A \<^verbatim>\<open>size_t\<close> is a natural number below \<open>2 ^ 64\<close>; where the code computes a
    \<^verbatim>\<open>size_t\<close> that could exceed that (\<^verbatim>\<open>capacity_ * 2\<close>, \<^verbatim>\<open>++size_\<close>, \<^verbatim>\<open>size_ + 1\<close>), the
    result is wrapped with \<open>size_t\<close>. Adding to a pointer does not wrap.
  \<^item> Every way an operation can end other than by returning is a value of \<open>error\<close>:
    the exception thrown by \<^verbatim>\<open>At\<close>, a failed \<^verbatim>\<open>assert\<close>, a failed allocation, and an
    access outside the allocated array (undefined behaviour in C++).
  \<^item> \<^verbatim>\<open>Type{}\<close> is the constant \<open>default\<close> of the element type.
\<close>

datatype error = OutOfRange | AssertFail | BadAlloc | OutOfBounds

definition size_t :: "nat \<Rightarrow> nat" where
  "size_t n = n mod 18446744073709551616"

text \<open>
  \<^verbatim>\<open>PTRDIFF_MAX\<close>, \<open>2 ^ 63 - 1\<close>: no array has more elements, since an element takes at
  least one byte. A request beyond it makes \<^verbatim>\<open>new Type[n]\<close> throw. (An allocation may
  fail earlier, when memory is short; the model describes the runs in which it is not.)
\<close>

definition PTRDIFF_MAX :: nat where
  "PTRDIFF_MAX = 9223372036854775807"

instantiation int :: default
begin
definition default_int :: int where "default_int = 0"
instance ..
end

definition and_then :: "error + 'a \<Rightarrow> ('a \<Rightarrow> error + 'b) \<Rightarrow> error + 'b" where
  "and_then m f = (case m of Inl e \<Rightarrow> Inl e | Inr x \<Rightarrow> f x)"

text \<open>
  \<^verbatim>\<open>new Type[n]\<close>: an array of \<open>n\<close> default-initialised elements. For a class type these
  are default-constructed; for a scalar type the language leaves them indeterminate, and
  \<open>default\<close> stands for whatever is there.
\<close>

definition new_array :: "nat \<Rightarrow> error + ('a::default) list" where
  "new_array n = (if PTRDIFF_MAX < n then Inl BadAlloc else Inr (replicate n default))"

section \<open>The standard algorithms the container calls\<close>

text \<open>
  A pointer into an array is the index of the slot it points to. Each algorithm is the
  loop of its definition in the C++ standard; a slot outside the array, or a range whose
  end lies before its start, ends the run with \<open>OutOfBounds\<close>. Moving an element is
  modelled as copying it: the moved-from slot keeps its value, as it does for scalar
  element types.
\<close>

text \<open>\<^verbatim>\<open>std::copy(first, last, d_first)\<close> from one array into another:
  \<^verbatim>\<open>while (first != last) *d_first++ = *first++;\<close>\<close>

function std_copy :: "'a list \<Rightarrow> nat \<Rightarrow> nat \<Rightarrow> 'a list \<Rightarrow> nat \<Rightarrow> error + 'a list" where
  "std_copy src first last' dst d_first =
     (if first = last' then Inr dst
      else if last' < first \<or> length src \<le> first \<or> length dst \<le> d_first then Inl OutOfBounds
      else std_copy src (Suc first) last' (dst[d_first := src ! first]) (Suc d_first))"
  by pat_completeness auto
termination
  by (relation "measure (\<lambda>(src, first, last', dst, d_first). last' - first)") auto

declare std_copy.simps [simp del]

text \<open>\<^verbatim>\<open>std::move(first, last, d_first)\<close> and \<^verbatim>\<open>std::uninitialized_copy(first, last, d_first)\<close>
  run the same loop, moving or constructing each element instead of assigning it.\<close>

definition std_move :: "'a list \<Rightarrow> nat \<Rightarrow> nat \<Rightarrow> 'a list \<Rightarrow> nat \<Rightarrow> error + 'a list" where
  "std_move = std_copy"

definition uninitialized_copy :: "'a list \<Rightarrow> nat \<Rightarrow> nat \<Rightarrow> 'a list \<Rightarrow> nat \<Rightarrow> error + 'a list" where
  "uninitialized_copy = std_copy"

text \<open>\<^verbatim>\<open>std::copy_backward(first, last, d_last)\<close> from one array into another:
  \<^verbatim>\<open>while (first != last) *(--d_last) = *(--last);\<close>\<close>

function std_copy_backward :: "'a list \<Rightarrow> nat \<Rightarrow> nat \<Rightarrow> 'a list \<Rightarrow> nat \<Rightarrow> error + 'a list" where
  "std_copy_backward src first last' dst d_last =
     (if first = last' then Inr dst
      else if last' < first \<or> length src < last' \<or> d_last = 0 \<or> length dst < d_last
        then Inl OutOfBounds
      else std_copy_backward src first (last' - 1) (dst[d_last - 1 := src ! (last' - 1)]) (d_last - 1))"
  by pat_completeness auto
termination
  by (relation "measure (\<lambda>(src, first, last', dst, d_last). last' - first)") auto

declare std_copy_backward.simps [simp del]

definition std_move_backward :: "'a list \<Rightarrow> nat \<Rightarrow> nat \<Rightarrow> 'a list \<Rightarrow> nat \<Rightarrow> error + 'a list" where
  "std_move_backward = std_copy_backward"

text \<open>
  The same two loops when source and destination lie in the same array, as in the
  shifts of \<^verbatim>\<open>Insert\<close> and \<^verbatim>\<open>Erase\<close>: every read sees the writes made before it.
\<close>

function std_move_within :: "'a list \<Rightarrow> nat \<Rightarrow> nat \<Rightarrow> nat \<Rightarrow> error + 'a list" where
  "std_move_within a first last' d_first =
     (if first = last' then Inr a
      else if last' < first \<or> length a \<le> first \<or> length a \<le> d_first then Inl OutOfBounds
      else std_move_within (a[d_first := a ! first]) (Suc first) last' (Suc d_first))"
  by pat_completeness auto
termination
  by (relation "measure (\<lambda>(a, first, last', d_first). last' - first)") auto

declare std_move_within.simps [simp del]

function std_copy_backward_within :: "'a list \<Rightarrow> nat \<Rightarrow> nat \<Rightarrow> nat \<Rightarrow> error + 'a list" where
  "std_copy_backward_within a first last' d_last =
     (if first = last' then Inr a
      else if last' < first \<or> length a < last' \<or> d_last = 0 \<or> length a < d_last
        then Inl OutOfBounds
      else std_copy_backward_within (a[d_last - 1 := a ! (last' - 1)]) first (last' - 1) (d_last - 1))"
  by pat_completeness auto
termination
  by (relation "measure (\<lambda>(a, first, last', d_last). last' - first)") auto

declare std_copy_backward_within.simps [simp del]

definition std_move_backward_within :: "'a list \<Rightarrow> nat \<Rightarrow> nat \<Rightarrow> nat \<Rightarrow> error + 'a list" where
  "std_move_backward_within = std_copy_backward_within"

text \<open>\<^verbatim>\<open>std::fill(first, last, value)\<close>: \<^verbatim>\<open>for (; first != last; ++first) *first = value;\<close>
  The two hand-written loops of \<^verbatim>\<open>Resize\<close> have this shape with \<^verbatim>\<open>Type{}\<close> as the value.\<close>

function std_fill :: "'a list \<Rightarrow> nat \<Rightarrow> nat \<Rightarrow> 'a \<Rightarrow> error + 'a list" where
  "std_fill a first last' val =
     (if first = last' then Inr a
      else if last' < first \<or> length a \<le> first then Inl OutOfBounds
      else std_fill (a[first := val]) (Suc first) last' val)"
  by pat_completeness auto
termination
  by (relation "measure (\<lambda>(a, first, last', val). last' - first)") auto

declare std_fill.simps [simp del]

text \<open>\<^verbatim>\<open>std::equal(first1, last1, first2)\<close>:
  \<^verbatim>\<open>for (; first1 != last1; ++first1, ++first2) if (!(*first1 == *first2)) return false;
  return true;\<close>\<close>

function std_equal :: "'a list \<Rightarrow> nat \<Rightarrow> nat \<Rightarrow> 'a list \<Rightarrow> nat \<Rightarrow> error + bool" where
  "std_equal a first1 last1 b first2 =
     (if first1 = last1 then Inr True
      else if last1 < first1 \<or> length a \<le> first1 \<or> length b \<le> first2 then Inl OutOfBounds
      else if \<not> (a ! first1 = b ! first2) then Inr False
      else std_equal a (Suc first1) last1 b (Suc first2))"
  by pat_completeness auto
termination
  by (relation "measure (\<lambda>(a, first1, last1, b, first2). last1 - first1)") auto

declare std_equal.simps [simp del]

text \<open>\<^verbatim>\<open>std::lexicographical_compare(first1, last1, first2, last2)\<close>:
  \<^verbatim>\<open>for (; first1 != last1 && first2 != last2; ++first1, ++first2) {
    if (*first1 < *first2) return true;
    if (*first2 < *first1) return false;
  }
  return first1 == last1 && first2 != last2;\<close>\<close>

function lexicographical_compare ::
  "('a::ord) list \<Rightarrow> nat \<Rightarrow> nat \<Rightarrow> 'a list \<Rightarrow> nat \<Rightarrow> nat \<Rightarrow> error + bool" where
  "lexicographical_compare a first1 last1 b first2 last2 =
     (if first1 \<noteq> last1 \<and> first2 \<noteq> last2 then
        (if last1 < first1 \<or> last2 < first2 \<or> length a \<le> first1 \<or> length b \<le> first2
           then Inl OutOfBounds
         else if a ! first1 < b ! first2 then Inr True
         else if b ! first2 < a ! first1 then Inr False
         else lexicographical_compare a (Suc first1) last1 b (Suc first2) last2)
      else Inr (first1 = last1 \<and> first2 \<noteq> last2))"
  by pat_completeness auto
termination
  by (relation "measure (\<lambda>(a, first1, last1, b, first2, last2). last1 - first1)") auto

declare lexicographical_compare.simps [simp del]

section \<open>\<^verbatim>\<open>ArrayPtr\<close>: the owned array\<close>

text \<open>
  An \<^verbatim>\<open>ArrayPtr<Type>\<close> holds one pointer, \<^verbatim>\<open>raw_ptr_\<close>, null or the start of an array it
  alone owns. It is modelled by the array it owns, with \<open>[]\<close> for the null pointer (the
  class never allocates an array of length 0). The class cannot be copied, and the
  container only ever swaps it, so two handles never share an array.
\<close>

type_synonym 'a ArrayPtr = "'a list"

text \<open>\<^verbatim>\<open>explicit ArrayPtr(size_t size)\<close>\<close>

definition ArrayPtr :: "nat \<Rightarrow> error + ('a::default) ArrayPtr" where
  "ArrayPtr size' = (if size' \<noteq> 0 then new_array size' else Inr [])"

text \<open>\<^verbatim>\<open>operator[]\<close>, \<^verbatim>\<open>*(raw_ptr_ + index)\<close>, read and written.\<close>

definition ArrayPtr_get :: "'a ArrayPtr \<Rightarrow> nat \<Rightarrow> error + 'a" where
  "ArrayPtr_get raw_ptr index =
     (if index < length raw_ptr then Inr (raw_ptr ! index) else Inl OutOfBounds)"

definition ArrayPtr_set :: "'a ArrayPtr \<Rightarrow> nat \<Rightarrow> 'a \<Rightarrow> error + 'a ArrayPtr" where
  "ArrayPtr_set raw_ptr index x =
     (if index < length raw_ptr then Inr (raw_ptr[index := x]) else Inl OutOfBounds)"

definition ArrayPtr_swap :: "'a ArrayPtr \<Rightarrow> 'a ArrayPtr \<Rightarrow> 'a ArrayPtr \<times> 'a ArrayPtr" where
  "ArrayPtr_swap raw_ptr other = (other, raw_ptr)"

section \<open>\<^verbatim>\<open>SimpleVector\<close>\<close>

record 'a SimpleVector =
  items_m :: "'a ArrayPtr"
  size_m :: nat
  capacity_m :: nat

text \<open>
  An iterator is a pointer into \<open>items_m\<close>, modelled by its distance from \<^verbatim>\<open>begin()\<close>:
  \<^verbatim>\<open>begin()\<close> is \<open>0\<close> and \<^verbatim>\<open>end()\<close> is \<open>size_m\<close>.
\<close>

definition GetSize :: "'a SimpleVector \<Rightarrow> nat" where
  "GetSize v = size_m v"

definition GetCapacity :: "'a SimpleVector \<Rightarrow> nat" where
  "GetCapacity v = capacity_m v"

definition IsEmpty :: "'a SimpleVector \<Rightarrow> bool" where
  "IsEmpty v = (size_m v = 0)"

definition Clear :: "'a SimpleVector \<Rightarrow> 'a SimpleVector" where
  "Clear v = v\<lparr>size_m := 0\<rparr>"

definition swap :: "'a SimpleVector \<Rightarrow> 'a SimpleVector \<Rightarrow> 'a SimpleVector \<times> 'a SimpleVector" where
  "swap this other =
     (let (i, oi) = ArrayPtr_swap (items_m this) (items_m other) in
        (\<lparr>items_m = i, size_m = size_m other, capacity_m = capacity_m other\<rparr>,
         \<lparr>items_m = oi, size_m = size_m this, capacity_m = capacity_m this\<rparr>))"

subsection \<open>Constructors\<close>

text \<open>\<^verbatim>\<open>SimpleVector() noexcept = default\<close>\<close>

definition SimpleVector_empty :: "'a SimpleVector" where
  "SimpleVector_empty = \<lparr>items_m = [], size_m = 0, capacity_m = 0\<rparr>"

text \<open>\<^verbatim>\<open>SimpleVector(size_t size, const Type& value)\<close>\<close>

definition SimpleVector_fill :: "nat \<Rightarrow> 'a \<Rightarrow> error + ('a::default) SimpleVector" where
  "SimpleVector_fill size' val =
     and_then (ArrayPtr size') (\<lambda>items.
     and_then (std_fill items 0 size' val) (\<lambda>items.
     Inr \<lparr>items_m = items, size_m = size', capacity_m = size'\<rparr>))"

text \<open>\<^verbatim>\<open>explicit SimpleVector(size_t size)\<close>\<close>

definition SimpleVector_sized :: "nat \<Rightarrow> error + ('a::default) SimpleVector" where
  "SimpleVector_sized size' = SimpleVector_fill size' default"

text \<open>\<^verbatim>\<open>SimpleVector(std::initializer_list<Type> init)\<close>\<close>

definition SimpleVector_init :: "'a list \<Rightarrow> error + ('a::default) SimpleVector" where
  "SimpleVector_init init =
     and_then (ArrayPtr (length init)) (\<lambda>items.
     and_then (std_copy init 0 (length init) items 0) (\<lambda>items.
     Inr \<lparr>items_m = items, size_m = length init, capacity_m = length init\<rparr>))"

text \<open>\<^verbatim>\<open>SimpleVector(const SimpleVector& other)\<close>: the array is allocated with
  \<^verbatim>\<open>other.size_\<close> elements, \<^verbatim>\<open>size_\<close> is \<^verbatim>\<open>other.size_\<close> and \<^verbatim>\<open>capacity_\<close> is
  \<^verbatim>\<open>other.capacity_\<close>.\<close>

definition SimpleVector_copy :: "('a::default) SimpleVector \<Rightarrow> error + 'a SimpleVector" where
  "SimpleVector_copy other =
     and_then (ArrayPtr (size_m other)) (\<lambda>items.
     and_then (uninitialized_copy (items_m other) 0 (size_m other) items 0) (\<lambda>items.
     Inr \<lparr>items_m = items, size_m = size_m other, capacity_m = capacity_m other\<rparr>))"

text \<open>\<^verbatim>\<open>SimpleVector(SimpleVector&& other)\<close>: the new object and what is left in \<open>other\<close>.\<close>

definition SimpleVector_move :: "'a SimpleVector \<Rightarrow> 'a SimpleVector \<times> 'a SimpleVector" where
  "SimpleVector_move other = swap SimpleVector_empty other"

subsection \<open>Element access\<close>

text \<open>\<^verbatim>\<open>operator[]\<close>: \<^verbatim>\<open>assert(size_ >= index); return items_[index];\<close>\<close>

definition subscript :: "'a SimpleVector \<Rightarrow> nat \<Rightarrow> error + 'a" where
  "subscript v index =
     (if \<not> (size_m v \<ge> index) then Inl AssertFail else ArrayPtr_get (items_m v) index)"

text \<open>\<^verbatim>\<open>At\<close>: \<^verbatim>\<open>if (!(index < size_)) throw std::out_of_range(...); return items_[index];\<close>
  Neither access writes a member, so neither returns a new state.\<close>

definition At :: "'a SimpleVector \<Rightarrow> nat \<Rightarrow> error + 'a" where
  "At v index =
     (if \<not> (index < size_m v) then Inl OutOfRange else ArrayPtr_get (items_m v) index)"

subsection \<open>Capacity and size\<close>

text \<open>\<^verbatim>\<open>void Reserve(size_t new_capacity)\<close>\<close>

definition Reserve :: "nat \<Rightarrow> ('a::default) SimpleVector \<Rightarrow> error + 'a SimpleVector" where
  "Reserve new_capacity v =
     (if new_capacity \<le> capacity_m v then Inr v
      else
        and_then (ArrayPtr new_capacity) (\<lambda>tmp.
        and_then (std_move (items_m v) 0 (size_m v) tmp 0) (\<lambda>tmp.
        Inr (v\<lparr>capacity_m := new_capacity, items_m := tmp\<rparr>))))"

text \<open>\<^verbatim>\<open>SimpleVector(ReserveProxyObj capacity_to_reserve)\<close>\<close>

definition SimpleVector_reserved :: "nat \<Rightarrow> error + ('a::default) SimpleVector" where
  "SimpleVector_reserved capacity_to_reserve = Reserve capacity_to_reserve SimpleVector_empty"

text \<open>\<^verbatim>\<open>void Resize(size_t new_size)\<close>. Each of its two loops assigns \<^verbatim>\<open>Type{}\<close> to the slots
  from \<^verbatim>\<open>size_\<close> up to \<^verbatim>\<open>new_size\<close>; the end pointer of a loop is compared with, never
  read or written through.\<close>

definition Resize :: "nat \<Rightarrow> ('a::default) SimpleVector \<Rightarrow> error + 'a SimpleVector" where
  "Resize new_size v =
     (if size_m v = new_size then Inr v
      else if size_m v < new_size \<and> capacity_m v < new_size then
        (let new_capacity = max new_size (size_t (capacity_m v * 2)) in
           and_then (ArrayPtr new_capacity) (\<lambda>tmp.
           and_then (std_move (items_m v) 0 (size_m v) tmp 0) (\<lambda>tmp.
           and_then (std_fill tmp (size_m v) new_size default) (\<lambda>tmp.
           Inr \<lparr>items_m = tmp, size_m = new_size, capacity_m = new_capacity\<rparr>))))
      else if size_m v < new_size \<and> capacity_m v > new_size then
        and_then (std_fill (items_m v) (size_m v) new_size default) (\<lambda>items.
        Inr (v\<lparr>items_m := items, size_m := new_size\<rparr>))
      else Inr (v\<lparr>size_m := new_size\<rparr>))"

subsection \<open>Sequence mutators\<close>

text \<open>\<^verbatim>\<open>void PushBack(const Type& item)\<close>\<close>

definition PushBack :: "'a \<Rightarrow> ('a::default) SimpleVector \<Rightarrow> error + 'a SimpleVector" where
  "PushBack item v =
     (if size_m v < capacity_m v then
        and_then (ArrayPtr_set (items_m v) (size_m v) item) (\<lambda>items.
        Inr (v\<lparr>items_m := items, size_m := size_t (size_m v + 1)\<rparr>))
      else
        (let new_capacity = max 1 (size_t (capacity_m v * 2)) in
           and_then (ArrayPtr new_capacity) (\<lambda>tmp.
           and_then (std_copy (items_m v) 0 (size_m v) tmp 0) (\<lambda>tmp.
           and_then (ArrayPtr_set tmp (size_m v) item) (\<lambda>tmp.
           Inr \<lparr>items_m = tmp, size_m = size_t (size_m v + 1), capacity_m = new_capacity\<rparr>)))))"

text \<open>\<^verbatim>\<open>void PushBack(Type&& item)\<close>: the same steps with moves.\<close>

definition PushBack_rvalue :: "'a \<Rightarrow> ('a::default) SimpleVector \<Rightarrow> error + 'a SimpleVector" where
  "PushBack_rvalue item v =
     (if size_m v < capacity_m v then
        and_then (ArrayPtr_set (items_m v) (0 + size_m v) item) (\<lambda>items.
        Inr (v\<lparr>items_m := items, size_m := size_t (size_m v + 1)\<rparr>))
      else
        (let new_capacity = max 1 (size_t (capacity_m v * 2)) in
           and_then (ArrayPtr new_capacity) (\<lambda>tmp.
           and_then (std_move (items_m v) 0 (size_m v) tmp 0) (\<lambda>tmp.
           and_then (ArrayPtr_set tmp (size_m v) item) (\<lambda>tmp.
           Inr \<lparr>items_m = tmp, size_m = size_t (size_m v + 1), capacity_m = new_capacity\<rparr>)))))"

text \<open>\<^verbatim>\<open>Iterator Insert(ConstIterator pos, const Type& value)\<close>: the new state and the
  returned iterator. Of the assertion \<^verbatim>\<open>pos >= begin() && pos <= end()\<close> the first half
  holds of every distance from \<^verbatim>\<open>begin()\<close>.\<close>

definition Insert :: "nat \<Rightarrow> 'a \<Rightarrow> ('a::default) SimpleVector \<Rightarrow> error + 'a SimpleVector \<times> nat" where
  "Insert pos val v =
     (if \<not> (pos \<ge> 0 \<and> pos \<le> size_m v) then Inl AssertFail
      else
        (let pos_value = pos - 0 in
           if size_m v < capacity_m v then
             and_then (std_copy_backward_within (items_m v) pos (size_m v) (size_m v + 1)) (\<lambda>items.
             and_then (ArrayPtr_set items pos_value val) (\<lambda>items.
             Inr (v\<lparr>items_m := items, size_m := size_t (size_m v + 1)\<rparr>, pos_value)))
           else
             (let new_capacity = max 1 (size_t (capacity_m v * 2)) in
                and_then (ArrayPtr new_capacity) (\<lambda>tmp.
                and_then (std_copy (items_m v) 0 (0 + pos_value) tmp 0) (\<lambda>tmp.
                and_then (std_copy_backward (items_m v) (0 + pos_value) (size_m v) tmp
                            (size_t (size_m v + 1)))
                  (\<lambda>tmp.
                and_then (ArrayPtr_set tmp pos_value val) (\<lambda>tmp.
                Inr (\<lparr>items_m = tmp, size_m = size_t (size_m v + 1), capacity_m = new_capacity\<rparr>,
                     pos_value))))))))"

text \<open>\<^verbatim>\<open>Iterator Insert(ConstIterator pos, Type&& value)\<close>: the same steps with moves.\<close>

definition Insert_rvalue ::
  "nat \<Rightarrow> 'a \<Rightarrow> ('a::default) SimpleVector \<Rightarrow> error + 'a SimpleVector \<times> nat" where
  "Insert_rvalue pos val v =
     (if \<not> (pos \<ge> 0 \<and> pos \<le> size_m v) then Inl AssertFail
      else
        (let pos_value = pos - 0 in
           if size_m v < capacity_m v then
             and_then (std_move_backward_within (items_m v) pos (size_m v) (size_m v + 1)) (\<lambda>items.
             and_then (ArrayPtr_set items (0 + pos_value) val) (\<lambda>items.
             Inr (v\<lparr>items_m := items, size_m := size_t (size_m v + 1)\<rparr>, pos_value)))
           else
             (let new_capacity = max 1 (size_t (capacity_m v * 2)) in
                and_then (ArrayPtr new_capacity) (\<lambda>tmp.
                and_then (std_move (items_m v) 0 (0 + pos_value) tmp 0) (\<lambda>tmp.
                and_then (std_move_backward (items_m v) (0 + pos_value) (size_m v) tmp
                            (size_t (size_m v + 1)))
                  (\<lambda>tmp.
                and_then (ArrayPtr_set tmp (0 + pos_value) val) (\<lambda>tmp.
                Inr (\<lparr>items_m = tmp, size_m = size_t (size_m v + 1), capacity_m = new_capacity\<rparr>,
                     pos_value))))))))"

text \<open>\<^verbatim>\<open>void PopBack() noexcept\<close>: \<^verbatim>\<open>assert(size_ != 0); --size_;\<close>\<close>

definition PopBack :: "'a SimpleVector \<Rightarrow> error + 'a SimpleVector" where
  "PopBack v = (if \<not> (size_m v \<noteq> 0) then Inl AssertFail else Inr (v\<lparr>size_m := size_m v - 1\<rparr>))"

text \<open>\<^verbatim>\<open>Iterator Erase(ConstIterator pos)\<close>:
  \<^verbatim>\<open>assert(pos >= begin() && pos < end()); std::move(pos + 1, end(), pos); --size_;\<close>\<close>

definition Erase :: "nat \<Rightarrow> 'a SimpleVector \<Rightarrow> error + 'a SimpleVector \<times> nat" where
  "Erase pos v =
     (if \<not> (pos \<ge> 0 \<and> pos < size_m v) then Inl AssertFail
      else
        and_then (std_move_within (items_m v) (pos + 1) (size_m v) pos) (\<lambda>items.
        Inr (v\<lparr>items_m := items, size_m := size_m v - 1\<rparr>, pos)))"

subsection \<open>Assignment\<close>

text \<open>
  Both assignment operators compare the addresses of their two operands, so their model
  works on a store of vectors: \<open>this\<close> and \<open>rhs\<close> are addresses, and \<open>h\<close> gives the object
  at each address.
\<close>

type_synonym 'a store = "nat \<Rightarrow> 'a SimpleVector"

text \<open>\<^verbatim>\<open>SimpleVector& operator=(const SimpleVector& rhs)\<close>; the temporary \<open>tmp\<close>, which
  holds the old array of \<open>this\<close> after the swap, is destroyed on return.\<close>

definition copy_assign :: "nat \<Rightarrow> nat \<Rightarrow> ('a::default) store \<Rightarrow> error + 'a store" where
  "copy_assign this rhs h =
     (if this \<noteq> rhs then
        (if IsEmpty (h rhs) then Inr (h(this := Clear (h this)))
         else
           and_then (SimpleVector_sized (size_m (h rhs))) (\<lambda>tmp.
           and_then (uninitialized_copy (items_m (h rhs)) 0 (size_m (h rhs)) (items_m tmp) 0)
             (\<lambda>items.
           Inr (h(this := fst (swap (h this) (tmp\<lparr>items_m := items\<rparr>)))))))
      else Inr h)"

text \<open>\<^verbatim>\<open>SimpleVector& operator=(SimpleVector&& rhs)\<close>\<close>

definition move_assign :: "nat \<Rightarrow> nat \<Rightarrow> 'a store \<Rightarrow> 'a store" where
  "move_assign this rhs h =
     (if this \<noteq> rhs then
        (if IsEmpty (h rhs) then h(this := Clear (h this))
         else (let (t, r) = swap (h this) (h rhs) in h(this := t, rhs := r)))
      else h)"

subsection \<open>Comparison\<close>

text \<open>\<^verbatim>\<open>&&\<close> and \<^verbatim>\<open>||\<close> evaluate their right operand only when the left one does not decide.\<close>

definition operator_eq :: "'a SimpleVector \<Rightarrow> 'a SimpleVector \<Rightarrow> error + bool" where
  "operator_eq lhs rhs =
     (if GetSize lhs = GetSize rhs
      then std_equal (items_m lhs) 0 (size_m lhs) (items_m rhs) 0
      else Inr False)"

definition operator_ne :: "'a SimpleVector \<Rightarrow> 'a SimpleVector \<Rightarrow> error + bool" where
  "operator_ne lhs rhs = and_then (operator_eq lhs rhs) (\<lambda>e. Inr (\<not> e))"

definition operator_less :: "('a::ord) SimpleVector \<Rightarrow> 'a SimpleVector \<Rightarrow> error + bool" where
  "operator_less lhs rhs =
     lexicographical_compare (items_m lhs) 0 (size_m lhs) (items_m rhs) 0 (size_m rhs)"

definition operator_le :: "('a::ord) SimpleVector \<Rightarrow> 'a SimpleVector \<Rightarrow> error + bool" where
  "operator_le lhs rhs =
     and_then (operator_eq lhs rhs) (\<lambda>e. if e then Inr True else operator_less lhs rhs)"

definition operator_greater :: "('a::ord) SimpleVector \<Rightarrow> 'a SimpleVector \<Rightarrow> error + bool" where
  "operator_greater lhs rhs = operator_less rhs lhs"

definition operator_ge :: "('a::ord) SimpleVector \<Rightarrow> 'a SimpleVector \<Rightarrow> error + bool" where
  "operator_ge lhs rhs =
     and_then (operator_eq lhs rhs) (\<lambda>e. if e then Inr True else operator_less rhs lhs)"

section \<open>The data-model invariant\<close>

text \<open>
  The logical content of a vector is the range from \<^verbatim>\<open>begin()\<close> to \<^verbatim>\<open>end()\<close>. A vector is
  well formed when its size is at most its capacity, its array has exactly
  \<open>capacity_m\<close> slots, and that many slots can be allocated at all.
\<close>

definition elements :: "'a SimpleVector \<Rightarrow> 'a list" where
  "elements v = take (size_m v) (items_m v)"

definition well_formed :: "'a SimpleVector \<Rightarrow> bool" where
  "well_formed v \<longleftrightarrow>
     size_m v \<le> capacity_m v \<and> length (items_m v) = capacity_m v \<and> capacity_m v \<le> PTRDIFF_MAX"

text \<open>A weaker condition suffices for reading: the range from \<^verbatim>\<open>begin()\<close> to \<^verbatim>\<open>end()\<close>
  lies inside the array.\<close>

definition range_valid :: "'a SimpleVector \<Rightarrow> bool" where
  "range_valid v \<longleftrightarrow> size_m v \<le> length (items_m v)"

text \<open>
  The order the specification names for \<^verbatim>\<open>operator<\<close>, written out: the first position
  where two sequences differ decides, and a proper prefix is less than the sequence it
  is a prefix of.
\<close>

fun lexicographically_less :: "('a::linorder) list \<Rightarrow> 'a list \<Rightarrow> bool" where
  "lexicographically_less [] [] = False"
| "lexicographically_less [] (y # ys) = True"
| "lexicographically_less (x # xs) [] = False"
| "lexicographically_less (x # xs) (y # ys) = (x < y \<or> (x = y \<and> lexicographically_less xs ys))"

section \<open>What the loops compute\<close>

lemma and_then_Inr [simp]: "and_then (Inr x) f = f x"
  by (simp add: and_then_def)

lemma and_then_Inl [simp]: "and_then (Inl e) f = Inl e"
  by (simp add: and_then_def)

lemma std_copy_result:
  "first \<le> last' \<Longrightarrow> last' \<le> length src \<Longrightarrow> d_first + (last' - first) \<le> length dst \<Longrightarrow>
   std_copy src first last' dst d_first =
     Inr (take d_first dst @ take (last' - first) (drop first src) @ drop (d_first + (last' - first)) dst)"
proof (induction src first last' dst d_first rule: std_copy.induct)
  case (1 src first last' dst d_first)
  show ?case
  proof (cases "first = last'")
    case True
    then show ?thesis by (simp add: std_copy.simps)
  next
    case False
    with "1.prems" have lt: "first < last'" "first < length src" "d_first < length dst" by auto
    have step: "std_copy src first last' dst d_first =
        std_copy src (Suc first) last' (dst[d_first := src ! first]) (Suc d_first)"
      using False lt by (subst std_copy.simps) simp
    have ih: "std_copy src (Suc first) last' (dst[d_first := src ! first]) (Suc d_first) =
       Inr (take (Suc d_first) (dst[d_first := src ! first]) @ take (last' - Suc first) (drop (Suc first) src)
            @ drop (Suc d_first + (last' - Suc first)) (dst[d_first := src ! first]))"
      using "1.IH" False lt "1.prems" by simp
    have "take (Suc d_first) (dst[d_first := src ! first]) = take d_first dst @ [src ! first]"
      using lt by (simp add: take_Suc_conv_app_nth)
    moreover have "take (last' - first) (drop first src) = src ! first # take (last' - Suc first) (drop (Suc first) src)"
      using lt by (metis Cons_nth_drop_Suc Suc_diff_Suc take_Suc_Cons)
    moreover have "Suc d_first + (last' - Suc first) = d_first + (last' - first)"
      using lt by simp
    ultimately show ?thesis using step ih lt by simp
  qed
qed

lemma std_copy_backward_result:
  "first \<le> last' \<Longrightarrow> last' \<le> length src \<Longrightarrow> last' - first \<le> d_last \<Longrightarrow> d_last \<le> length dst \<Longrightarrow>
   std_copy_backward src first last' dst d_last =
     Inr (take (d_last - (last' - first)) dst @ take (last' - first) (drop first src) @ drop d_last dst)"
proof (induction src first last' dst d_last rule: std_copy_backward.induct)
  case (1 src first last' dst d_last)
  show ?case
  proof (cases "first = last'")
    case True
    then show ?thesis by (simp add: std_copy_backward.simps)
  next
    case False
    with "1.prems" have lt: "first < last'" "last' \<le> length src" "0 < d_last" "d_last \<le> length dst"
      by auto
    define x where "x = src ! (last' - 1)"
    define n where "n = last' - 1 - first"
    have n: "last' - first = Suc n" "last' - 1 = first + n" using lt by (auto simp: n_def)
    have step: "std_copy_backward src first last' dst d_last =
        std_copy_backward src first (last' - 1) (dst[d_last - 1 := x]) (d_last - 1)"
      using False lt by (subst std_copy_backward.simps) (simp add: x_def)
    have ih: "std_copy_backward src first (last' - 1) (dst[d_last - 1 := x]) (d_last - 1) =
       Inr (take (d_last - 1 - n) (dst[d_last - 1 := x]) @ take n (drop first src)
            @ drop (d_last - 1) (dst[d_last - 1 := x]))"
      using "1.IH" False lt "1.prems" by (simp add: x_def n_def)
    have a: "drop (d_last - 1) (dst[d_last - 1 := x]) = x # drop d_last dst"
      using lt by (cases d_last) (simp_all add: drop_update_swap Cons_nth_drop_Suc [symmetric] flip: upd_conv_take_nth_drop)
    have b: "take (Suc n) (drop first src) = take n (drop first src) @ [x]"
      using lt n by (simp add: take_Suc_conv_app_nth x_def)
    have c: "take (d_last - 1 - n) (dst[d_last - 1 := x]) = take (d_last - Suc n) dst"
      by simp
    show ?thesis using step ih a b c n by simp
  qed
qed

lemma std_move_within_result:
  "d_first \<le> first \<Longrightarrow> first \<le> last' \<Longrightarrow> last' \<le> length a \<Longrightarrow>
   std_move_within a first last' d_first =
     Inr (take d_first a @ take (last' - first) (drop first a) @ drop (d_first + (last' - first)) a)"
proof (induction a first last' d_first rule: std_move_within.induct)
  case (1 a first last' d_first)
  show ?case
  proof (cases "first = last'")
    case True
    then show ?thesis by (simp add: std_move_within.simps)
  next
    case False
    with "1.prems" have lt: "first < last'" "first < length a" "d_first < length a" "d_first \<le> first"
      by auto
    define x where "x = a ! first"
    have step: "std_move_within a first last' d_first =
        std_move_within (a[d_first := x]) (Suc first) last' (Suc d_first)"
      using False lt by (subst std_move_within.simps) (simp add: x_def)
    have ih: "std_move_within (a[d_first := x]) (Suc first) last' (Suc d_first) =
       Inr (take (Suc d_first) (a[d_first := x]) @ take (last' - Suc first) (drop (Suc first) (a[d_first := x]))
            @ drop (Suc d_first + (last' - Suc first)) (a[d_first := x]))"
      using "1.IH" False lt "1.prems" by (simp add: x_def)
    have p: "take (Suc d_first) (a[d_first := x]) = take d_first a @ [x]"
      using lt by (simp add: take_Suc_conv_app_nth)
    have q: "drop (Suc first) (a[d_first := x]) = drop (Suc first) a"
      using lt by simp
    have r: "take (last' - first) (drop first a) = x # take (last' - Suc first) (drop (Suc first) a)"
      using lt unfolding x_def by (metis Cons_nth_drop_Suc Suc_diff_Suc take_Suc_Cons)
    have s: "Suc d_first + (last' - Suc first) = d_first + (last' - first)"
      using lt by simp
    have t: "drop (d_first + (last' - first)) (a[d_first := x]) = drop (d_first + (last' - first)) a"
      using lt by simp
    show ?thesis using step ih p q r t unfolding s by simp
  qed
qed

lemma std_copy_backward_within_result:
  "first \<le> last' \<Longrightarrow> last' \<le> d_last \<Longrightarrow> d_last \<le> length a \<Longrightarrow>
   std_copy_backward_within a first last' d_last =
     Inr (take (d_last - (last' - first)) a @ take (last' - first) (drop first a) @ drop d_last a)"
proof (induction a first last' d_last rule: std_copy_backward_within.induct)
  case (1 a first last' d_last)
  show ?case
  proof (cases "first = last'")
    case True
    then show ?thesis by (simp add: std_copy_backward_within.simps)
  next
    case False
    with "1.prems" have lt: "first < last'" "last' \<le> length a" "0 < d_last" "d_last \<le> length a"
      "last' \<le> d_last"
      by auto
    define x where "x = a ! (last' - 1)"
    define n where "n = last' - 1 - first"
    have n: "last' - first = Suc n" "last' - 1 = first + n" using lt by (auto simp: n_def)
    have step: "std_copy_backward_within a first last' d_last =
        std_copy_backward_within (a[d_last - 1 := x]) first (last' - 1) (d_last - 1)"
      using False lt by (subst std_copy_backward_within.simps) (simp add: x_def)
    have ih: "std_copy_backward_within (a[d_last - 1 := x]) first (last' - 1) (d_last - 1) =
       Inr (take (d_last - 1 - n) (a[d_last - 1 := x]) @ take n (drop first (a[d_last - 1 := x]))
            @ drop (d_last - 1) (a[d_last - 1 := x]))"
      using "1.IH" False lt "1.prems" by (simp add: x_def n_def)
    have p: "drop (d_last - 1) (a[d_last - 1 := x]) = x # drop d_last a"
      using lt by (cases d_last) (simp_all add: drop_update_swap Cons_nth_drop_Suc [symmetric] flip: upd_conv_take_nth_drop)
    have q: "take (Suc n) (drop first a) = take n (drop first a) @ [x]"
      using lt n by (simp add: take_Suc_conv_app_nth x_def)
    have r: "take (d_last - 1 - n) (a[d_last - 1 := x]) = take (d_last - Suc n) a"
      by simp
    have "take n (drop first (a[d_last - 1 := x])) = drop first (take (first + n) (a[d_last - 1 := x]))"
      by (simp add: drop_take)
    also have "take (first + n) (a[d_last - 1 := x]) = take (first + n) a"
      using lt n by simp
    also have "drop first (take (first + n) a) = take n (drop first a)"
      by (simp add: drop_take)
    finally have s: "take n (drop first (a[d_last - 1 := x])) = take n (drop first a)" .
    show ?thesis using step ih p q r s n by simp
  qed
qed

lemma std_fill_result:
  "first \<le> last' \<Longrightarrow> last' \<le> length a \<Longrightarrow>
   std_fill a first last' val = Inr (take first a @ replicate (last' - first) val @ drop last' a)"
proof (induction a first last' val rule: std_fill.induct)
  case (1 a first last' val)
  show ?case
  proof (cases "first = last'")
    case True
    then show ?thesis by (simp add: std_fill.simps)
  next
    case False
    with "1.prems" have lt: "first < last'" "first < length a" by auto
    have step: "std_fill a first last' val = std_fill (a[first := val]) (Suc first) last' val"
      using False lt by (subst std_fill.simps) simp
    have ih: "std_fill (a[first := val]) (Suc first) last' val =
        Inr (take (Suc first) (a[first := val]) @ replicate (last' - Suc first) val
             @ drop last' (a[first := val]))"
      using "1.IH" False lt "1.prems" by simp
    have p: "take (Suc first) (a[first := val]) = take first a @ [val]"
      using lt by (simp add: take_Suc_conv_app_nth)
    have q: "replicate (last' - first) val = val # replicate (last' - Suc first) val"
      using lt by (simp add: Suc_diff_Suc flip: replicate_Suc)
    have r: "drop last' (a[first := val]) = drop last' a"
      using lt by simp
    show ?thesis using step ih p q r by simp
  qed
qed

lemma std_equal_result:
  "first1 \<le> last1 \<Longrightarrow> last1 \<le> length a \<Longrightarrow> first2 + (last1 - first1) \<le> length b \<Longrightarrow>
   std_equal a first1 last1 b first2 =
     Inr (take (last1 - first1) (drop first1 a) = take (last1 - first1) (drop first2 b))"
proof (induction a first1 last1 b first2 rule: std_equal.induct)
  case (1 a first1 last1 b first2)
  show ?case
  proof (cases "first1 = last1")
    case True
    then show ?thesis by (simp add: std_equal.simps)
  next
    case False
    with "1.prems" have lt: "first1 < last1" "first1 < length a" "first2 < length b" by auto
    have p: "take (last1 - first1) (drop first1 a) =
        a ! first1 # take (last1 - Suc first1) (drop (Suc first1) a)"
      using lt by (metis Cons_nth_drop_Suc Suc_diff_Suc take_Suc_Cons)
    have q: "take (last1 - first1) (drop first2 b) =
        b ! first2 # take (last1 - Suc first1) (drop (Suc first2) b)"
      using lt by (metis Cons_nth_drop_Suc Suc_diff_Suc take_Suc_Cons)
    show ?thesis
    proof (cases "a ! first1 = b ! first2")
      case True
      have "std_equal a first1 last1 b first2 = std_equal a (Suc first1) last1 b (Suc first2)"
        using False lt True by (subst std_equal.simps) simp
      also have "\<dots> = Inr (take (last1 - Suc first1) (drop (Suc first1) a) =
          take (last1 - Suc first1) (drop (Suc first2) b))"
        using "1.IH" False lt True "1.prems" by simp
      finally show ?thesis using p q True by simp
    next
      case neq: False
      have "std_equal a first1 last1 b first2 = Inr False"
        using False lt neq by (subst std_equal.simps) simp
      then show ?thesis using p q neq by simp
    qed
  qed
qed

lemma lexicographical_compare_result:
  fixes a b :: "('a::linorder) list"
  shows "first1 \<le> last1 \<Longrightarrow> last1 \<le> length a \<Longrightarrow> first2 \<le> last2 \<Longrightarrow> last2 \<le> length b \<Longrightarrow>
   lexicographical_compare a first1 last1 b first2 last2 =
     Inr (take (last1 - first1) (drop first1 a) < take (last2 - first2) (drop first2 b))"
proof (induction a first1 last1 b first2 last2 rule: lexicographical_compare.induct)
  case (1 a first1 last1 b first2 last2)
  show ?case
  proof (cases "first1 \<noteq> last1 \<and> first2 \<noteq> last2")
    case False
    have nil_less: "([] < ys) = (ys \<noteq> [])" for ys :: "'a list"
      by (cases ys) simp_all
    have r: "lexicographical_compare a first1 last1 b first2 last2 =
        Inr (first1 = last1 \<and> first2 \<noteq> last2)"
      by (subst lexicographical_compare.simps) (simp only: False if_False)
    have "(take (last2 - first2) (drop first2 b) \<noteq> []) = (first2 \<noteq> last2)"
      using "1.prems" by auto
    then show ?thesis using r False "1.prems"
      by (cases "first1 = last1") (simp_all add: nil_less)
  next
    case True
    with "1.prems" have lt: "first1 < last1" "first1 < length a" "first2 < last2" "first2 < length b"
      by auto
    define x where "x = a ! first1"
    define y where "y = b ! first2"
    have p: "take (last1 - first1) (drop first1 a) =
        x # take (last1 - Suc first1) (drop (Suc first1) a)"
      using lt unfolding x_def by (metis Cons_nth_drop_Suc Suc_diff_Suc take_Suc_Cons)
    have q: "take (last2 - first2) (drop first2 b) =
        y # take (last2 - Suc first2) (drop (Suc first2) b)"
      using lt unfolding y_def by (metis Cons_nth_drop_Suc Suc_diff_Suc take_Suc_Cons)
    consider (less) "x < y" | (greater) "y < x" | (eq) "x = y"
      by (metis linorder_less_linear)
    then show ?thesis
    proof cases
      case less
      have "lexicographical_compare a first1 last1 b first2 last2 = Inr True"
        using True lt less by (subst lexicographical_compare.simps) (simp add: x_def y_def)
      then show ?thesis using p q less by simp
    next
      case greater
      have "lexicographical_compare a first1 last1 b first2 last2 = Inr False"
        using True lt greater by (subst lexicographical_compare.simps) (auto simp: x_def y_def)
      then show ?thesis using p q greater by auto
    next
      case eq
      have "lexicographical_compare a first1 last1 b first2 last2 =
          lexicographical_compare a (Suc first1) last1 b (Suc first2) last2"
        using True lt eq by (subst lexicographical_compare.simps) (simp add: x_def y_def)
      also have "\<dots> = Inr (take (last1 - Suc first1) (drop (Suc first1) a) <
          take (last2 - Suc first2) (drop (Suc first2) b))"
        using "1.IH" True lt eq "1.prems" by (simp add: x_def y_def)
      finally show ?thesis using p q eq by simp
    qed
  qed
qed

section \<open>Simple facts about the model\<close>

lemma well_formed_range_valid: "well_formed v \<Longrightarrow> range_valid v"
  by (simp add: well_formed_def range_valid_def)

lemma length_elements: "range_valid v \<Longrightarrow> length (elements v) = size_m v"
  by (simp add: elements_def range_valid_def)

lemma and_then_eq_Inr: "and_then m f = Inr y \<longleftrightarrow> (\<exists>x. m = Inr x \<and> f x = Inr y)"
  by (cases m) simp_all

lemma ArrayPtr_length: "ArrayPtr n = Inr t \<Longrightarrow> length t = n"
  by (auto simp: ArrayPtr_def new_array_def split: if_splits)

lemma ArrayPtr_set_Inr: "ArrayPtr_set a i x = Inr r \<Longrightarrow> i < length a \<and> r = a[i := x]"
  by (auto simp: ArrayPtr_set_def split: if_splits)

lemma std_copy_length: "std_copy src first last' dst d_first = Inr r \<Longrightarrow> length r = length dst"
proof (induction src first last' dst d_first rule: std_copy.induct)
  case (1 src first last' dst d_first)
  from "1.prems" show ?case
    by (subst (asm) std_copy.simps) (auto split: if_splits dest: "1.IH" [rotated -1])
qed

lemma std_copy_backward_length:
  "std_copy_backward src first last' dst d_last = Inr r \<Longrightarrow> length r = length dst"
proof (induction src first last' dst d_last rule: std_copy_backward.induct)
  case (1 src first last' dst d_last)
  show ?case
  proof (cases "first = last'")
    case True
    with "1.prems" show ?thesis
      by (subst (asm) std_copy_backward.simps) simp
  next
    case False
    let ?bad = "last' < first \<or> length src < last' \<or> d_last = 0 \<or> length dst < d_last"
    have ok: "\<not> ?bad"
      using "1.prems" False by (subst (asm) std_copy_backward.simps) (auto split: if_splits)
    have "std_copy_backward src first (last' - 1) (dst[d_last - 1 := src ! (last' - 1)]) (d_last - 1)
        = Inr r"
      using "1.prems" False ok by (subst (asm) std_copy_backward.simps) (simp del: One_nat_def)
    with "1.IH" [OF False ok] show ?thesis
      by simp
  qed
qed

lemma std_copy_backward_bound:
  "std_copy_backward src first last' dst d_last = Inr r \<Longrightarrow> first \<noteq> last' \<Longrightarrow> d_last \<le> length dst"
  by (subst (asm) std_copy_backward.simps) (auto split: if_splits)


lemma size_t_id: "n \<le> 2 * PTRDIFF_MAX + 1 \<Longrightarrow> size_t n = n"
  by (simp add: size_t_def PTRDIFF_MAX_def)

lemma ArrayPtr_result: "n \<le> PTRDIFF_MAX \<Longrightarrow> ArrayPtr n = Inr (replicate n default)"
  by (simp add: ArrayPtr_def new_array_def)

lemma elements_append_slot:
  assumes "size_m v < length (items_m v)"
  shows "take (Suc (size_m v)) ((items_m v)[size_m v := x]) = elements v @ [x]"
  using assms by (simp add: elements_def take_Suc_conv_app_nth)

text \<open>The overloads that take an rvalue behave as the ones that take a constant reference.\<close>

lemma PushBack_rvalue_eq: "PushBack_rvalue = PushBack"
  by (intro ext) (simp add: PushBack_rvalue_def PushBack_def std_move_def)

lemma Insert_rvalue_eq: "Insert_rvalue = Insert"
  by (intro ext)
    (simp add: Insert_rvalue_def Insert_def std_move_def std_move_backward_def
      std_move_backward_within_def)

section \<open>Checked access\<close>

text \<open>
  Claim C4. For every vector and every index \<open>i\<close>, \<^verbatim>\<open>At(i)\<close> fails with the out-of-range
  condition exactly when \<open>i\<close> is at least \<^verbatim>\<open>GetSize()\<close>; for every smaller \<open>i\<close> it
  returns the element at index \<open>i\<close> of the logical content, provided that content lies
  inside the array. \<^verbatim>\<open>At\<close> writes no member, so the vector after the call is the vector
  before it.
\<close>

theorem At_checked:
  "(At v i = Inl OutOfRange \<longleftrightarrow> i \<ge> GetSize v) \<and>
   (range_valid v \<longrightarrow> i < GetSize v \<longrightarrow> At v i = Inr (elements v ! i))"
proof -
  have "At v i \<noteq> Inl OutOfRange" if "i < GetSize v"
    using that by (simp add: At_def GetSize_def ArrayPtr_get_def)
  moreover have "At v i = Inl OutOfRange" if "GetSize v \<le> i"
    using that by (simp add: At_def GetSize_def)
  moreover have "At v i = Inr (elements v ! i)" if "i < GetSize v" "range_valid v"
    using that
    by (simp add: At_def GetSize_def ArrayPtr_get_def elements_def range_valid_def)
  ultimately show ?thesis
    by (cases "i < GetSize v") auto
qed

theorem At_checked_witness:
  "range_valid \<lparr>items_m = [1, 2, 3 :: int], size_m = 3, capacity_m = 3\<rparr> \<and>
   At \<lparr>items_m = [1, 2, 3 :: int], size_m = 3, capacity_m = 3\<rparr> 1 = Inr 2 \<and>
   At \<lparr>items_m = [1, 2, 3 :: int], size_m = 3, capacity_m = 3\<rparr> 3 = Inl OutOfRange"
proof -
  let ?v = "\<lparr>items_m = [1, 2, 3 :: int], size_m = 3, capacity_m = 3\<rparr>"
  have rv: "range_valid ?v"
    by (simp add: range_valid_def)
  have "At ?v 1 = Inr (elements ?v ! 1)"
    using At_checked [of ?v 1] rv by (simp add: GetSize_def)
  moreover have "At ?v 3 = Inl OutOfRange"
    using At_checked [of ?v 3] by (simp add: GetSize_def)
  ultimately show ?thesis
    using rv by (simp add: elements_def)
qed

section \<open>\<^verbatim>\<open>PushBack\<close>\<close>

lemma PushBack_in_place:
  assumes "well_formed v" "size_m v < capacity_m v"
  shows "PushBack x v = Inr (v\<lparr>items_m := (items_m v)[size_m v := x], size_m := size_m v + 1\<rparr>)"
proof -
  have "size_m v + 1 \<le> 2 * PTRDIFF_MAX + 1"
    using assms by (simp add: well_formed_def)
  then have "size_t (size_m v + 1) = size_m v + 1"
    by (rule size_t_id)
  then show ?thesis
    using assms by (simp add: PushBack_def ArrayPtr_set_def well_formed_def)
qed

lemma PushBack_grow:
  assumes "well_formed v" "\<not> size_m v < capacity_m v" "max 1 (2 * capacity_m v) \<le> PTRDIFF_MAX"
  shows "PushBack x v =
    Inr \<lparr>items_m = (items_m v @ replicate (max 1 (2 * capacity_m v) - capacity_m v) default)[size_m v := x],
         size_m = size_m v + 1, capacity_m = max 1 (2 * capacity_m v)\<rparr>"
proof -
  define c where "c = capacity_m v"
  define n where "n = max 1 (2 * c)"
  have sz: "size_m v = c" "length (items_m v) = c"
    using assms by (simp_all add: well_formed_def c_def)
  have n: "n \<le> PTRDIFF_MAX" "c < n"
    using assms by (auto simp: n_def c_def)
  have w: "size_t (c * 2) = c * 2" "size_t (Suc c) = Suc c"
    using n by (auto intro!: size_t_id simp: n_def)
  have cap: "max (Suc 0) (c * 2) = n"
    by (simp add: n_def mult.commute)
  have alloc: "ArrayPtr n = Inr (replicate n default)"
    using n by (simp add: ArrayPtr_result)
  have copy: "std_copy (items_m v) 0 c (replicate n default) 0 =
      Inr (items_m v @ replicate (n - c) default)"
    using n sz by (subst std_copy_result) simp_all
  have "PushBack x v =
      Inr \<lparr>items_m = (items_m v @ replicate (n - c) default)[c := x], size_m = c + 1, capacity_m = n\<rparr>"
    using assms(2) n sz
    by (simp add: PushBack_def Let_def cap alloc copy w ArrayPtr_set_def flip: c_def)
  then show ?thesis
    by (simp add: n_def sz flip: c_def)
qed

text \<open>
  Claim C5. For every vector \<open>v\<close> with size \<open>s\<close> and capacity \<open>c\<close>, after \<^verbatim>\<open>PushBack(x)\<close>, by
  either overload, the size is \<open>s + 1\<close>, the element at index \<open>s\<close> is \<open>x\<close>, the elements at the indices below
  \<open>s\<close> are unchanged, and the capacity is \<open>c\<close> when \<open>s < c\<close> and \<open>max 1 (2 * c)\<close> when
  \<open>s = c\<close>. The vector is taken to satisfy the data-model invariant, and a new array,
  where one is needed, to be within what can be allocated; the call then returns, and
  the invariant holds again.
\<close>

theorem PushBack_appends:
  assumes "well_formed v"
    and "GetSize v < GetCapacity v \<or> max 1 (2 * GetCapacity v) \<le> PTRDIFF_MAX"
  shows "\<exists>v'. PushBack x v = Inr v' \<and> PushBack_rvalue x v = Inr v' \<and>
           GetSize v' = GetSize v + 1 \<and>
           At v' (GetSize v) = Inr x \<and>
           (\<forall>i<GetSize v. At v' i = At v i) \<and>
           elements v' = elements v @ [x] \<and>
           GetCapacity v' =
             (if GetSize v < GetCapacity v then GetCapacity v else max 1 (2 * GetCapacity v)) \<and>
           well_formed v'"
proof (cases "size_m v < capacity_m v")
  case True
  let ?v' = "v\<lparr>items_m := (items_m v)[size_m v := x], size_m := size_m v + 1\<rparr>"
  have wf: "size_m v < length (items_m v)" "capacity_m v \<le> PTRDIFF_MAX"
    using assms(1) True by (simp_all add: well_formed_def)
  have "PushBack x v = Inr ?v'"
    using assms(1) True by (rule PushBack_in_place)
  moreover have "At ?v' (GetSize v) = Inr x"
    using wf by (simp add: At_def GetSize_def ArrayPtr_get_def)
  moreover have "\<forall>i<GetSize v. At ?v' i = At v i"
    using wf by (simp add: At_def GetSize_def ArrayPtr_get_def)
  moreover have "elements ?v' = elements v @ [x]"
    using elements_append_slot [OF wf(1)] by (simp add: elements_def)
  moreover have "well_formed ?v'"
    using assms(1) True by (simp add: well_formed_def)
  ultimately show ?thesis
    using True by (simp add: GetSize_def GetCapacity_def PushBack_rvalue_eq)
next
  case False
  define n where "n = max 1 (2 * capacity_m v)"
  let ?items = "(items_m v @ replicate (n - capacity_m v) default)[size_m v := x]"
  let ?v' = "\<lparr>items_m = ?items, size_m = size_m v + 1, capacity_m = n\<rparr>"
  have lim: "n \<le> PTRDIFF_MAX"
    using assms(2) False by (simp add: n_def GetSize_def GetCapacity_def)
  have sz: "size_m v = capacity_m v" "length (items_m v) = capacity_m v"
    using assms(1) False by (simp_all add: well_formed_def)
  have lt: "capacity_m v < n"
    by (auto simp: n_def)
  have "PushBack x v = Inr ?v'"
    unfolding n_def using assms(1) False lim [unfolded n_def] by (rule PushBack_grow)
  moreover have "At ?v' (GetSize v) = Inr x"
    using sz lt by (simp add: At_def GetSize_def ArrayPtr_get_def)
  moreover have "\<forall>i<GetSize v. At ?v' i = At v i"
    using sz lt by (simp add: At_def GetSize_def ArrayPtr_get_def nth_append)
  moreover have "elements ?v' = elements v @ [x]"
    using sz lt by (simp add: elements_def take_Suc_conv_app_nth nth_append)
  moreover have "well_formed ?v'"
    using sz lt lim by (simp add: well_formed_def)
  ultimately show ?thesis
    using False by (simp add: GetSize_def GetCapacity_def n_def PushBack_rvalue_eq)
qed

theorem PushBack_appends_witness:
  "well_formed \<lparr>items_m = [1, 2, 3 :: int], size_m = 3, capacity_m = 3\<rparr> \<and>
   max 1 (2 * GetCapacity \<lparr>items_m = [1, 2, 3 :: int], size_m = 3, capacity_m = 3\<rparr>) \<le> PTRDIFF_MAX \<and>
   (\<exists>v'. PushBack 4 \<lparr>items_m = [1, 2, 3 :: int], size_m = 3, capacity_m = 3\<rparr> = Inr v' \<and>
      GetSize v' = 4 \<and> GetCapacity v' = 6 \<and> elements v' = [1, 2, 3, 4] \<and> At v' 3 = Inr 4)"
proof -
  let ?v = "\<lparr>items_m = [1, 2, 3 :: int], size_m = 3, capacity_m = 3\<rparr>"
  have wf: "well_formed ?v"
    by (simp add: well_formed_def PTRDIFF_MAX_def)
  have lim: "max 1 (2 * GetCapacity ?v) \<le> PTRDIFF_MAX"
    by (simp add: GetCapacity_def PTRDIFF_MAX_def)
  then have "GetSize ?v < GetCapacity ?v \<or> max 1 (2 * GetCapacity ?v) \<le> PTRDIFF_MAX"
    by (rule disjI2)
  from PushBack_appends [OF wf this, of 4] obtain v' where
    "PushBack 4 ?v = Inr v'" "GetSize v' = GetSize ?v + 1" "At v' (GetSize ?v) = Inr 4"
    "elements v' = elements ?v @ [4]"
    "GetCapacity v' = (if GetSize ?v < GetCapacity ?v then GetCapacity ?v else max 1 (2 * GetCapacity ?v))"
    by blast
  then have "PushBack 4 ?v = Inr v' \<and> GetSize v' = 4 \<and> GetCapacity v' = 6 \<and>
      elements v' = [1, 2, 3, 4] \<and> At v' 3 = Inr 4"
    by (simp add: GetSize_def GetCapacity_def elements_def)
  then show ?thesis
    using wf lim by blast
qed

section \<open>Running the model on concrete vectors\<close>

lemma replicate_numeral: "replicate (numeral k) x = x # replicate (pred_numeral k) x"
  by (simp add: numeral_eq_Suc)

lemma list_update_numeral: "(x # xs)[numeral k := y] = x # xs[pred_numeral k := y]"
  by (simp add: numeral_eq_Suc)

lemmas run_simps =
  ArrayPtr_def new_array_def PTRDIFF_MAX_def size_t_def ArrayPtr_set_def ArrayPtr_get_def
  default_int_def Let_def
  std_copy.simps std_copy_backward.simps std_move_within.simps std_copy_backward_within.simps
  std_fill.simps std_equal.simps lexicographical_compare.simps
  std_move_def uninitialized_copy_def std_move_backward_def std_move_backward_within_def
  replicate_numeral list_update_numeral

section \<open>Capacity\<close>

lemma PushBack_capacity: "PushBack x v = Inr v' \<Longrightarrow> capacity_m v \<le> capacity_m v'"
proof (cases "size_m v < capacity_m v")
  case True
  assume "PushBack x v = Inr v'"
  with True show ?thesis
    by (auto simp: PushBack_def and_then_eq_Inr)
next
  case False
  assume r: "PushBack x v = Inr v'"
  define n where "n = max 1 (size_t (capacity_m v * 2))"
  from r False obtain t t1 t2 where
    t: "ArrayPtr n = Inr t" and
    t1: "std_copy (items_m v) 0 (size_m v) t 0 = Inr t1" and
    t2: "ArrayPtr_set t1 (size_m v) x = Inr t2" and
    v': "v' = \<lparr>items_m = t2, size_m = size_t (size_m v + 1), capacity_m = n\<rparr>"
    by (auto simp: PushBack_def Let_def and_then_eq_Inr n_def)
  have "size_m v < length t1"
    using t2 by (auto dest: ArrayPtr_set_Inr)
  also have "length t1 = n"
    using t t1 by (simp add: ArrayPtr_length std_copy_length)
  finally show ?thesis
    using False v' by simp
qed

lemma std_copy_backward_count:
  "std_copy_backward src first last' dst d_last = Inr r \<Longrightarrow> last' - first \<le> d_last"
proof (induction src first last' dst d_last rule: std_copy_backward.induct)
  case (1 src first last' dst d_last)
  show ?case
  proof (cases "first = last'")
    case True
    then show ?thesis by simp
  next
    case False
    let ?bad = "last' < first \<or> length src < last' \<or> d_last = 0 \<or> length dst < d_last"
    have ok: "\<not> ?bad"
      using "1.prems" False by (subst (asm) std_copy_backward.simps) (auto split: if_splits)
    have "std_copy_backward src first (last' - 1) (dst[d_last - 1 := src ! (last' - 1)]) (d_last - 1)
        = Inr r"
      using "1.prems" False ok by (subst (asm) std_copy_backward.simps) (simp del: One_nat_def)
    with "1.IH" [OF False ok] have "last' - 1 - first \<le> d_last - 1"
      by simp
    with ok show ?thesis
      by arith
  qed
qed

lemma size_t_less: "size_t n < 18446744073709551616"
  by (simp add: size_t_def)

lemma size_t_wrapped: "18446744073709551616 \<le> n \<Longrightarrow> size_t n \<le> n - 18446744073709551616"
proof -
  assume "18446744073709551616 \<le> n"
  then have "size_t n = size_t (n - 18446744073709551616)"
    unfolding size_t_def by (rule le_mod_geq)
  also have "\<dots> \<le> n - 18446744073709551616"
    unfolding size_t_def by (rule mod_less_eq_dividend)
  finally show ?thesis .
qed

lemma size_t_unwrapped: "n < 18446744073709551616 \<Longrightarrow> size_t n = n"
  by (simp add: size_t_def)

lemma Insert_capacity: "Insert pos x v = Inr (v', it) \<Longrightarrow> capacity_m v \<le> capacity_m v'"
proof (cases "size_m v < capacity_m v")
  case True
  assume "Insert pos x v = Inr (v', it)"
  with True show ?thesis
    by (auto simp: Insert_def Let_def and_then_eq_Inr split: if_splits)
next
  case False
  assume r: "Insert pos x v = Inr (v', it)"
  define n where "n = max 1 (size_t (capacity_m v * 2))"
  define d where "d = size_t (size_m v + 1)"
  from r have pos: "pos \<le> size_m v"
    by (auto simp: Insert_def split: if_splits)
  from r False pos obtain t t1 t2 t3 where
    t: "ArrayPtr n = Inr t" and
    t1: "std_copy (items_m v) 0 pos t 0 = Inr t1" and
    t2: "std_copy_backward (items_m v) pos (size_m v) t1 d = Inr t2" and
    t3: "ArrayPtr_set t2 pos x = Inr t3" and
    v': "v' = \<lparr>items_m = t3, size_m = size_t (size_m v + 1), capacity_m = n\<rparr>"
    by (auto simp: Insert_def Let_def and_then_eq_Inr n_def d_def)
  have len: "length t1 = n" "length t2 = n"
    using t t1 t2 by (simp_all add: ArrayPtr_length std_copy_length std_copy_backward_length)
  have n: "n < 18446744073709551616"
    using size_t_less [of "capacity_m v * 2"] by (simp add: n_def)
  have p: "pos < n"
    using t3 len by (auto dest: ArrayPtr_set_Inr)
  have "size_m v < n"
  proof (cases "pos = size_m v")
    case True
    with p show ?thesis
      by simp
  next
    case shift: False
    have d: "size_m v - pos \<le> d" "d \<le> n"
      using std_copy_backward_count [OF t2] std_copy_backward_bound [OF t2] shift len by simp_all
    show ?thesis
    proof (cases "size_m v + 1 < 18446744073709551616")
      case True
      then have "d = size_m v + 1"
        unfolding d_def by (rule size_t_unwrapped)
      with d show ?thesis
        by simp
    next
      case False
      then have "d \<le> size_m v + 1 - 18446744073709551616"
        unfolding d_def by (intro size_t_wrapped) simp
      with d(1) False have "18446744073709551615 \<le> pos"
        by simp
      with p n show ?thesis
        by simp
    qed
  qed
  then show ?thesis
    using False v' by simp
qed

lemma Erase_capacity: "Erase pos v = Inr (v', it) \<Longrightarrow> capacity_m v' = capacity_m v"
  by (auto simp: Erase_def and_then_eq_Inr split: if_splits)

lemma PopBack_capacity: "PopBack v = Inr v' \<Longrightarrow> capacity_m v' = capacity_m v"
  by (auto simp: PopBack_def split: if_splits)

lemma Resize_capacity: "Resize n v = Inr v' \<Longrightarrow> capacity_m v \<le> capacity_m v'"
  by (auto simp: Resize_def Let_def and_then_eq_Inr split: if_splits)

lemma Reserve_capacity: "Reserve n v = Inr v' \<Longrightarrow> capacity_m v \<le> capacity_m v'"
  by (auto simp: Reserve_def and_then_eq_Inr split: if_splits)

text \<open>
  Claim C6. For every vector and every single operation among \<^verbatim>\<open>PushBack\<close>, \<^verbatim>\<open>Insert\<close>,
  \<^verbatim>\<open>Erase\<close>, \<^verbatim>\<open>PopBack\<close>, \<^verbatim>\<open>Clear\<close>, \<^verbatim>\<open>Resize\<close> and \<^verbatim>\<open>Reserve\<close>, the capacity
  after the operation is at least the capacity before it. No invariant is assumed of
  the vector; an operation that does not return leaves no state to compare.
\<close>

theorem capacity_never_decreases:
  "(PushBack x v = Inr v' \<longrightarrow> GetCapacity v' \<ge> GetCapacity v) \<and>
   (PushBack_rvalue x v = Inr v' \<longrightarrow> GetCapacity v' \<ge> GetCapacity v) \<and>
   (Insert pos x v = Inr (v', it) \<longrightarrow> GetCapacity v' \<ge> GetCapacity v) \<and>
   (Insert_rvalue pos x v = Inr (v', it) \<longrightarrow> GetCapacity v' \<ge> GetCapacity v) \<and>
   (Erase pos v = Inr (v', it) \<longrightarrow> GetCapacity v' \<ge> GetCapacity v) \<and>
   (PopBack v = Inr v' \<longrightarrow> GetCapacity v' \<ge> GetCapacity v) \<and>
   GetCapacity (Clear v) \<ge> GetCapacity v \<and>
   (Resize n v = Inr v' \<longrightarrow> GetCapacity v' \<ge> GetCapacity v) \<and>
   (Reserve n v = Inr v' \<longrightarrow> GetCapacity v' \<ge> GetCapacity v)"
  unfolding GetCapacity_def PushBack_rvalue_eq Insert_rvalue_eq
  by (intro conjI impI)
    (simp_all add: PushBack_capacity Insert_capacity Erase_capacity PopBack_capacity
      Resize_capacity Reserve_capacity Clear_def)

theorem capacity_never_decreases_witness:
  "PushBack 4 \<lparr>items_m = [1, 2, 3 :: int], size_m = 3, capacity_m = 3\<rparr> = Inr \<lparr>items_m = [1, 2, 3, 4, 0, 0 :: int], size_m = 4, capacity_m = 6\<rparr> \<and>
   GetCapacity \<lparr>items_m = [1, 2, 3, 4, 0, 0 :: int], size_m = 4, capacity_m = 6\<rparr> \<ge> 3 \<and>
   PushBack_rvalue 4 \<lparr>items_m = [1, 2, 3 :: int], size_m = 3, capacity_m = 3\<rparr> = Inr \<lparr>items_m = [1, 2, 3, 4, 0, 0 :: int], size_m = 4, capacity_m = 6\<rparr> \<and>
   GetCapacity \<lparr>items_m = [1, 2, 3, 4, 0, 0 :: int], size_m = 4, capacity_m = 6\<rparr> \<ge> 3 \<and>
   Insert 1 9 \<lparr>items_m = [1, 2, 3 :: int], size_m = 3, capacity_m = 3\<rparr> = Inr (\<lparr>items_m = [1, 9, 2, 3, 0, 0 :: int], size_m = 4, capacity_m = 6\<rparr>, 1) \<and>
   GetCapacity \<lparr>items_m = [1, 9, 2, 3, 0, 0 :: int], size_m = 4, capacity_m = 6\<rparr> \<ge> 3 \<and>
   Insert_rvalue 1 9 \<lparr>items_m = [1, 2, 3 :: int], size_m = 3, capacity_m = 3\<rparr> = Inr (\<lparr>items_m = [1, 9, 2, 3, 0, 0 :: int], size_m = 4, capacity_m = 6\<rparr>, 1) \<and>
   GetCapacity \<lparr>items_m = [1, 9, 2, 3, 0, 0 :: int], size_m = 4, capacity_m = 6\<rparr> \<ge> 3 \<and>
   Erase 0 \<lparr>items_m = [1, 2, 3 :: int], size_m = 3, capacity_m = 3\<rparr> = Inr (\<lparr>items_m = [2, 3, 3 :: int], size_m = 2, capacity_m = 3\<rparr>, 0) \<and>
   GetCapacity \<lparr>items_m = [2, 3, 3 :: int], size_m = 2, capacity_m = 3\<rparr> \<ge> 3 \<and>
   PopBack \<lparr>items_m = [1, 2, 3 :: int], size_m = 3, capacity_m = 3\<rparr> = Inr \<lparr>items_m = [1, 2, 3 :: int], size_m = 2, capacity_m = 3\<rparr> \<and>
   GetCapacity \<lparr>items_m = [1, 2, 3 :: int], size_m = 2, capacity_m = 3\<rparr> \<ge> 3 \<and>
   Resize 5 \<lparr>items_m = [1, 2, 3 :: int], size_m = 3, capacity_m = 3\<rparr> = Inr \<lparr>items_m = [1, 2, 3, 0, 0, 0 :: int], size_m = 5, capacity_m = 6\<rparr> \<and>
   GetCapacity \<lparr>items_m = [1, 2, 3, 0, 0, 0 :: int], size_m = 5, capacity_m = 6\<rparr> \<ge> 3 \<and>
   Reserve 4 \<lparr>items_m = [1, 2, 3 :: int], size_m = 3, capacity_m = 3\<rparr> = Inr \<lparr>items_m = [1, 2, 3, 0 :: int], size_m = 3, capacity_m = 4\<rparr> \<and>
   GetCapacity \<lparr>items_m = [1, 2, 3, 0 :: int], size_m = 3, capacity_m = 4\<rparr> \<ge> 3"
proof -
  let ?v = "\<lparr>items_m = [1, 2, 3 :: int], size_m = 3, capacity_m = 3\<rparr>"
  have p: "PushBack 4 ?v = Inr \<lparr>items_m = [1, 2, 3, 4, 0, 0 :: int], size_m = 4, capacity_m = 6\<rparr>"
    by (simp add: PushBack_def run_simps)
  have q: "PushBack_rvalue 4 ?v = Inr \<lparr>items_m = [1, 2, 3, 4, 0, 0 :: int], size_m = 4, capacity_m = 6\<rparr>"
    by (simp add: PushBack_rvalue_def run_simps)
  have i: "Insert 1 9 ?v = Inr (\<lparr>items_m = [1, 9, 2, 3, 0, 0 :: int], size_m = 4, capacity_m = 6\<rparr>, 1)"
    by (simp add: Insert_def run_simps)
  have j: "Insert_rvalue 1 9 ?v = Inr (\<lparr>items_m = [1, 9, 2, 3, 0, 0 :: int], size_m = 4, capacity_m = 6\<rparr>, 1)"
    by (simp add: Insert_rvalue_def run_simps)
  have e: "Erase 0 ?v = Inr (\<lparr>items_m = [2, 3, 3 :: int], size_m = 2, capacity_m = 3\<rparr>, 0)"
    by (simp add: Erase_def run_simps)
  have b: "PopBack ?v = Inr \<lparr>items_m = [1, 2, 3 :: int], size_m = 2, capacity_m = 3\<rparr>"
    by (simp add: PopBack_def run_simps)
  have r: "Resize 5 ?v = Inr \<lparr>items_m = [1, 2, 3, 0, 0, 0 :: int], size_m = 5, capacity_m = 6\<rparr>"
    by (simp add: Resize_def run_simps)
  have s: "Reserve 4 ?v = Inr \<lparr>items_m = [1, 2, 3, 0 :: int], size_m = 3, capacity_m = 4\<rparr>"
    by (simp add: Reserve_def run_simps)
  have cp: "GetCapacity \<lparr>items_m = [1, 2, 3, 4, 0, 0 :: int], size_m = 4, capacity_m = 6\<rparr> \<ge> 3"
    using capacity_never_decreases [where v = ?v and v' = "\<lparr>items_m = [1, 2, 3, 4, 0, 0 :: int], size_m = 4, capacity_m = 6\<rparr>" and x = 4] p by (simp add: GetCapacity_def)
  have cq: "GetCapacity \<lparr>items_m = [1, 2, 3, 4, 0, 0 :: int], size_m = 4, capacity_m = 6\<rparr> \<ge> 3"
    using capacity_never_decreases [where v = ?v and v' = "\<lparr>items_m = [1, 2, 3, 4, 0, 0 :: int], size_m = 4, capacity_m = 6\<rparr>" and x = 4] q by (simp add: GetCapacity_def)
  have ci: "GetCapacity \<lparr>items_m = [1, 9, 2, 3, 0, 0 :: int], size_m = 4, capacity_m = 6\<rparr> \<ge> 3"
    using capacity_never_decreases [where v = ?v and v' = "\<lparr>items_m = [1, 9, 2, 3, 0, 0 :: int], size_m = 4, capacity_m = 6\<rparr>" and pos = 1 and x = 9 and it = 1] i by (simp add: GetCapacity_def)
  have cj: "GetCapacity \<lparr>items_m = [1, 9, 2, 3, 0, 0 :: int], size_m = 4, capacity_m = 6\<rparr> \<ge> 3"
    using capacity_never_decreases [where v = ?v and v' = "\<lparr>items_m = [1, 9, 2, 3, 0, 0 :: int], size_m = 4, capacity_m = 6\<rparr>" and pos = 1 and x = 9 and it = 1] j by (simp add: GetCapacity_def)
  have ce: "GetCapacity \<lparr>items_m = [2, 3, 3 :: int], size_m = 2, capacity_m = 3\<rparr> \<ge> 3"
    using capacity_never_decreases [where v = ?v and v' = "\<lparr>items_m = [2, 3, 3 :: int], size_m = 2, capacity_m = 3\<rparr>" and pos = 0 and it = 0] e by (simp add: GetCapacity_def)
  have cb: "GetCapacity \<lparr>items_m = [1, 2, 3 :: int], size_m = 2, capacity_m = 3\<rparr> \<ge> 3"
    using capacity_never_decreases [where v = ?v and v' = "\<lparr>items_m = [1, 2, 3 :: int], size_m = 2, capacity_m = 3\<rparr>"] b by (simp add: GetCapacity_def)
  have cr: "GetCapacity \<lparr>items_m = [1, 2, 3, 0, 0, 0 :: int], size_m = 5, capacity_m = 6\<rparr> \<ge> 3"
    using capacity_never_decreases [where v = ?v and v' = "\<lparr>items_m = [1, 2, 3, 0, 0, 0 :: int], size_m = 5, capacity_m = 6\<rparr>" and n = 5] r by (simp add: GetCapacity_def)
  have cs: "GetCapacity \<lparr>items_m = [1, 2, 3, 0 :: int], size_m = 3, capacity_m = 4\<rparr> \<ge> 3"
    using capacity_never_decreases [where v = ?v and v' = "\<lparr>items_m = [1, 2, 3, 0 :: int], size_m = 3, capacity_m = 4\<rparr>" and n = 4] s by (simp add: GetCapacity_def)
  show ?thesis
    using p q i j e b r s cp cq ci cj ce cb cr cs by blast
qed

section \<open>\<^verbatim>\<open>Insert\<close> and \<^verbatim>\<open>Erase\<close>\<close>

lemma take_Suc_update_last:
  "p < length a \<Longrightarrow> (take (Suc p) a)[p := x] = take p a @ [x]"
  by (simp add: take_Suc_conv_app_nth list_update_append)

lemma Insert_in_place:
  assumes wf: "well_formed v" and pos: "pos \<le> size_m v" and room: "size_m v < capacity_m v"
  shows "Insert pos x v =
    Inr (v\<lparr>items_m := take pos (items_m v) @ [x] @ take (size_m v - pos) (drop pos (items_m v))
                 @ drop (Suc (size_m v)) (items_m v),
            size_m := Suc (size_m v)\<rparr>, pos)"
proof -
  define a where "a = items_m v"
  define s where "s = size_m v"
  have len: "s < length a" "pos \<le> s" "length a \<le> PTRDIFF_MAX"
    using wf pos room by (simp_all add: well_formed_def a_def s_def)
  have w: "size_t (Suc s) = Suc s"
    using len by (intro size_t_id) simp
  have shift: "std_copy_backward_within a pos s (Suc s) =
      Inr (take (Suc pos) a @ take (s - pos) (drop pos a) @ drop (Suc s) a)"
    using len by (subst std_copy_backward_within_result) (simp_all add: Suc_diff_le)
  have "(take (Suc pos) a @ take (s - pos) (drop pos a) @ drop (Suc s) a)[pos := x] =
      take pos a @ [x] @ take (s - pos) (drop pos a) @ drop (Suc s) a"
    using len by (simp add: list_update_append1 take_Suc_update_last)
  then show ?thesis
    using len room pos
    by (simp add: Insert_def Let_def shift w ArrayPtr_set_def flip: a_def s_def)
qed

lemma Insert_grow:
  assumes wf: "well_formed v" and pos: "pos \<le> size_m v" and full: "\<not> size_m v < capacity_m v"
    and lim: "max 1 (2 * capacity_m v) \<le> PTRDIFF_MAX"
  shows "Insert pos x v =
    Inr (\<lparr>items_m = take pos (items_m v) @ [x] @ drop pos (items_m v)
                 @ replicate (max 1 (2 * capacity_m v) - Suc (capacity_m v)) default,
           size_m = Suc (size_m v), capacity_m = max 1 (2 * capacity_m v)\<rparr>, pos)"
proof -
  define a where "a = items_m v"
  define c where "c = capacity_m v"
  define n where "n = max 1 (2 * c)"
  have sz: "size_m v = c" "length a = c" "pos \<le> c"
    using wf pos full by (simp_all add: well_formed_def a_def c_def)
  have n: "n \<le> PTRDIFF_MAX" "c < n"
    using lim by (auto simp: n_def c_def)
  have w: "size_t (c * 2) = c * 2" "size_t (Suc c) = Suc c"
    using n by (auto intro!: size_t_id simp: n_def)
  have cap: "max (Suc 0) (c * 2) = n"
    by (simp add: n_def mult.commute)
  have alloc: "ArrayPtr n = Inr (replicate n default)"
    using n by (simp add: ArrayPtr_result)
  define t1 where "t1 = take pos a @ replicate (n - pos) (default :: 'a)"
  have copy: "std_copy a 0 pos (replicate n default) 0 = Inr t1"
    using n sz by (subst std_copy_result) (simp_all add: t1_def)
  have len1: "length t1 = n"
    using n sz by (simp add: t1_def)
  have "std_copy_backward a pos c t1 (Suc c) =
      Inr (take (Suc c - (c - pos)) t1 @ take (c - pos) (drop pos a) @ drop (Suc c) t1)"
    using n sz len1 by (subst std_copy_backward_result) simp_all
  moreover have "Suc c - (c - pos) = Suc pos"
    using sz by simp
  moreover have "take (c - pos) (drop pos a) = drop pos a"
    using sz by simp
  moreover have "drop (Suc c) t1 = replicate (n - Suc c) default"
    using sz n by (simp add: t1_def)
  moreover have "take (Suc pos) t1 = take pos a @ [default]"
    using sz n by (simp add: t1_def take_Suc_conv_app_nth nth_append)
  ultimately have bwd: "std_copy_backward a pos c t1 (Suc c) =
      Inr ((take pos a @ [default]) @ drop pos a @ replicate (n - Suc c) default)"
    by simp
  have upd: "((take pos a @ [default]) @ drop pos a @ replicate (n - Suc c) default)[pos := x] =
      take pos a @ [x] @ drop pos a @ replicate (n - Suc c) default"
    using sz list_update_length [of "take pos a" default _ x] by simp
  have "Insert pos x v =
      Inr (\<lparr>items_m = take pos a @ [x] @ drop pos a @ replicate (n - Suc c) default,
             size_m = Suc c, capacity_m = n\<rparr>, pos)"
    using full sz n upd
    by (simp add: Insert_def Let_def cap alloc copy bwd w ArrayPtr_set_def flip: a_def c_def)
  then show ?thesis
    by (simp add: n_def sz flip: a_def c_def)
qed

lemma Insert_elements:
  assumes wf: "well_formed v" and pos: "pos \<le> size_m v"
    and lim: "size_m v < capacity_m v \<or> max 1 (2 * capacity_m v) \<le> PTRDIFF_MAX"
  shows "\<exists>v'. Insert pos x v = Inr (v', pos) \<and> size_m v' = Suc (size_m v) \<and>
           elements v' = take pos (elements v) @ x # drop pos (elements v) \<and>
           capacity_m v' =
             (if size_m v < capacity_m v then capacity_m v else max 1 (2 * capacity_m v)) \<and>
           well_formed v'"
proof (cases "size_m v < capacity_m v")
  case True
  define a where "a = items_m v"
  define s where "s = size_m v"
  let ?v' = "v\<lparr>items_m := take pos a @ [x] @ take (s - pos) (drop pos a) @ drop (Suc s) a,
                size_m := Suc s\<rparr>"
  have len: "s < length a" "pos \<le> s" "length a = capacity_m v" "capacity_m v \<le> PTRDIFF_MAX"
    using wf pos True by (simp_all add: well_formed_def a_def s_def)
  have "Insert pos x v = Inr (?v', pos)"
    unfolding a_def s_def using wf pos True by (rule Insert_in_place)
  moreover have "elements ?v' = take pos (elements v) @ x # drop pos (elements v)"
  proof -
    define pre where "pre = take pos a @ [x] @ take (s - pos) (drop pos a)"
    have "length pre = Suc s"
      using len by (simp add: pre_def)
    then have "take (Suc s) (pre @ drop (Suc s) a) = pre"
      by simp
    moreover have "take pos (take s a) = take pos a"
      using len by (simp add: min_def)
    moreover have "drop pos (take s a) = take (s - pos) (drop pos a)"
      by (simp add: drop_take)
    ultimately show ?thesis
      by (simp add: elements_def pre_def flip: a_def s_def)
  qed
  moreover have "well_formed ?v'"
    using len True by (simp add: well_formed_def s_def)
  ultimately show ?thesis
    using True by (auto simp: s_def)
next
  case False
  define a where "a = items_m v"
  define c where "c = capacity_m v"
  define n where "n = max 1 (2 * c)"
  let ?v' = "\<lparr>items_m = take pos a @ [x] @ drop pos a @ replicate (n - Suc c) default,
             size_m = Suc (size_m v), capacity_m = n\<rparr>"
  have sz: "size_m v = c" "length a = c" "pos \<le> c"
    using wf pos False by (simp_all add: well_formed_def a_def c_def)
  have n: "n \<le> PTRDIFF_MAX" "c < n"
    using lim False by (auto simp: n_def c_def)
  have "Insert pos x v = Inr (?v', pos)"
    unfolding a_def c_def n_def using wf pos False lim
    by (intro Insert_grow) auto
  moreover have "elements ?v' = take pos (elements v) @ x # drop pos (elements v)"
  proof -
    define pre where "pre = take pos a @ [x] @ drop pos a"
    have "length pre = Suc c"
      using sz by (simp add: pre_def)
    then have "take (Suc c) (pre @ replicate (n - Suc c) default) = pre"
      by simp
    moreover have "take c a = a"
      using sz by simp
    ultimately show ?thesis
      using sz by (simp add: elements_def pre_def flip: a_def)
  qed
  moreover have "well_formed ?v'"
    using sz n by (simp add: well_formed_def)
  ultimately show ?thesis
    using False by (auto simp: n_def c_def)
qed

lemma Erase_elements:
  assumes wf: "well_formed v" and pos: "pos < size_m v"
  shows "\<exists>v'. Erase pos v = Inr (v', pos) \<and> size_m v' = size_m v - 1 \<and>
           elements v' = take pos (elements v) @ drop (Suc pos) (elements v) \<and>
           capacity_m v' = capacity_m v \<and> well_formed v'"
proof -
  define a where "a = items_m v"
  define s where "s = size_m v"
  let ?items = "take pos a @ take (s - Suc pos) (drop (Suc pos) a) @ drop (pos + (s - Suc pos)) a"
  let ?v' = "v\<lparr>items_m := ?items, size_m := s - 1\<rparr>"
  have len: "pos < s" "s \<le> length a" "length a = capacity_m v" "capacity_m v \<le> PTRDIFF_MAX"
    using wf pos by (simp_all add: well_formed_def a_def s_def)
  have "std_move_within a (pos + 1) s pos = Inr ?items"
    using len by (subst std_move_within_result) simp_all
  then have "Erase pos v = Inr (?v', pos)"
    using pos by (simp add: Erase_def flip: a_def s_def)
  moreover have "elements ?v' = take pos (elements v) @ drop (Suc pos) (elements v)"
  proof -
    define pre where "pre = take pos a @ take (s - Suc pos) (drop (Suc pos) a)"
    have "length pre = s - 1"
      using len by (simp add: pre_def)
    then have "take (s - 1) (pre @ drop (pos + (s - Suc pos)) a) = pre"
      by simp
    moreover have "take pos (take s a) = take pos a"
      using len by (simp add: min_def)
    moreover have "drop (Suc pos) (take s a) = take (s - Suc pos) (drop (Suc pos) a)"
      by (simp add: drop_take)
    ultimately show ?thesis
      by (simp add: elements_def pre_def flip: a_def s_def)
  qed
  moreover have "well_formed ?v'"
    using len by (simp add: well_formed_def s_def)
  ultimately show ?thesis
    by (auto simp: s_def)
qed

text \<open>
  Claim C7. For every vector \<open>a\<close> and every value \<open>x\<close>, \<^verbatim>\<open>Insert(a.begin(), x)\<close>, by either
  overload, followed by \<^verbatim>\<open>Erase(a.begin())\<close> leaves the size and the logical content of \<open>a\<close> as they were
  before the two calls; nothing is said of the capacity. The vector is taken to satisfy
  the data-model invariant, and a new array, where one is needed, to be within what can
  be allocated; both calls then return.
\<close>

theorem Insert_then_Erase_at_begin:
  assumes "well_formed a"
    and "GetSize a < GetCapacity a \<or> max 1 (2 * GetCapacity a) \<le> PTRDIFF_MAX"
  shows "\<exists>a1 it1 a2 it2.
           Insert 0 x a = Inr (a1, it1) \<and> Insert_rvalue 0 x a = Inr (a1, it1) \<and>
           Erase 0 a1 = Inr (a2, it2) \<and>
           GetSize a2 = GetSize a \<and> elements a2 = elements a"
proof -
  from Insert_elements [of a 0 x] assms obtain a1 where
    a1: "Insert 0 x a = Inr (a1, 0)" "size_m a1 = Suc (size_m a)"
      "elements a1 = x # elements a" "well_formed a1"
    by (auto simp: GetSize_def GetCapacity_def)
  from Erase_elements [of a1 0] a1 obtain a2 where
    a2: "Erase 0 a1 = Inr (a2, 0)" "size_m a2 = size_m a1 - 1"
      "elements a2 = drop (Suc 0) (elements a1)"
    by auto
  from a1 a2 show ?thesis
    by (auto simp: GetSize_def Insert_rvalue_eq)
qed

theorem Insert_then_Erase_at_begin_witness:
  "well_formed \<lparr>items_m = [1, 2, 3 :: int], size_m = 3, capacity_m = 3\<rparr> \<and>
   max 1 (2 * GetCapacity \<lparr>items_m = [1, 2, 3 :: int], size_m = 3, capacity_m = 3\<rparr>) \<le> PTRDIFF_MAX \<and>
   (\<exists>a1 it1 a2 it2.
      Insert 0 9 \<lparr>items_m = [1, 2, 3 :: int], size_m = 3, capacity_m = 3\<rparr> = Inr (a1, it1) \<and>
      Erase 0 a1 = Inr (a2, it2) \<and> GetSize a2 = 3 \<and> elements a2 = [1, 2, 3])"
proof -
  let ?a = "\<lparr>items_m = [1, 2, 3 :: int], size_m = 3, capacity_m = 3\<rparr>"
  have wf: "well_formed ?a"
    by (simp add: well_formed_def PTRDIFF_MAX_def)
  have lim: "max 1 (2 * GetCapacity ?a) \<le> PTRDIFF_MAX"
    by (simp add: GetCapacity_def PTRDIFF_MAX_def)
  then have "GetSize ?a < GetCapacity ?a \<or> max 1 (2 * GetCapacity ?a) \<le> PTRDIFF_MAX"
    by (rule disjI2)
  from Insert_then_Erase_at_begin [OF wf this, of 9] obtain a1 it1 a2 it2 where
    "Insert 0 9 ?a = Inr (a1, it1)" "Erase 0 a1 = Inr (a2, it2)"
    "GetSize a2 = GetSize ?a" "elements a2 = elements ?a"
    by blast
  then have "Insert 0 9 ?a = Inr (a1, it1) \<and> Erase 0 a1 = Inr (a2, it2) \<and>
      GetSize a2 = 3 \<and> elements a2 = [1, 2, 3]"
    by (simp add: GetSize_def elements_def)
  then show ?thesis
    using wf lim by blast
qed

section \<open>Comparison operators\<close>

lemma operator_eq_result:
  assumes "range_valid a" "range_valid b"
  shows "operator_eq a b = Inr (elements a = elements b)"
proof (cases "size_m a = size_m b")
  case True
  have "std_equal (items_m a) 0 (size_m a) (items_m b) 0 =
      Inr (take (size_m a) (items_m a) = take (size_m a) (items_m b))"
    using assms True by (subst std_equal_result) (simp_all add: range_valid_def)
  then show ?thesis
    using True by (simp add: operator_eq_def GetSize_def elements_def)
next
  case False
  have "length (elements a) \<noteq> length (elements b)"
    using False assms by (simp add: length_elements)
  then have "elements a \<noteq> elements b"
    by auto
  then show ?thesis
    using False by (simp add: operator_eq_def GetSize_def)
qed

lemma operator_less_result:
  fixes a b :: "('a::linorder) SimpleVector"
  assumes "range_valid a" "range_valid b"
  shows "operator_less a b = Inr (elements a < elements b)"
  using assms unfolding operator_less_def
  by (subst lexicographical_compare_result) (simp_all add: range_valid_def elements_def)

lemma elements_eq_iff:
  assumes "range_valid a" "range_valid b"
  shows "elements a = elements b \<longleftrightarrow>
    size_m a = size_m b \<and> (\<forall>i<size_m a. items_m a ! i = items_m b ! i)"
  using assms
  by (auto simp: list_eq_iff_nth_eq elements_def range_valid_def)

lemma lexicographically_less_iff: "lexicographically_less xs ys \<longleftrightarrow> xs < ys"
  by (induction xs ys rule: lexicographically_less.induct) auto

text \<open>
  Claim C8. For all vectors \<open>a\<close> and \<open>b\<close> over a linearly ordered element type, \<open>a == b\<close>
  holds exactly when the sizes are equal and the elements are pairwise equal in order
  (capacities play no part); \<open>a < b\<close> holds exactly when the content of \<open>a\<close> is
  lexicographically less than that of \<open>b\<close>; and \<open>a <= b\<close>, \<open>a > b\<close>, \<open>a >= b\<close> are
  \<open>a == b\<close> or \<open>a < b\<close>, \<open>b < a\<close>, and \<open>a == b\<close> or \<open>b < a\<close>. The content of each vector
  is taken to lie inside its array; every comparison then returns.
\<close>

theorem comparison_operators:
  fixes a b :: "('a::linorder) SimpleVector"
  assumes "range_valid a" "range_valid b"
  shows "\<exists>e l g.
           operator_eq a b = Inr e \<and> operator_less a b = Inr l \<and> operator_less b a = Inr g \<and>
           (e \<longleftrightarrow> GetSize a = GetSize b \<and> (\<forall>i<GetSize a. elements a ! i = elements b ! i)) \<and>
           (l \<longleftrightarrow> lexicographically_less (elements a) (elements b)) \<and>
           operator_le a b = Inr (e \<or> l) \<and>
           operator_greater a b = Inr g \<and>
           operator_ge a b = Inr (e \<or> g)"
proof -
  have eq: "elements a = elements b \<longleftrightarrow>
      GetSize a = GetSize b \<and> (\<forall>i<GetSize a. elements a ! i = elements b ! i)"
    using assms by (auto simp: list_eq_iff_nth_eq length_elements GetSize_def)
  have e: "operator_eq a b = Inr (elements a = elements b)"
    using assms by (rule operator_eq_result)
  have l: "operator_less a b = Inr (elements a < elements b)"
    using assms by (rule operator_less_result)
  have g: "operator_less b a = Inr (elements b < elements a)"
    using assms(2,1) by (rule operator_less_result)
  have "operator_le a b = Inr (elements a = elements b \<or> elements a < elements b)"
    by (simp add: operator_le_def e l)
  moreover have "operator_greater a b = Inr (elements b < elements a)"
    by (simp add: operator_greater_def g)
  moreover have "operator_ge a b = Inr (elements a = elements b \<or> elements b < elements a)"
    by (simp add: operator_ge_def e g)
  ultimately show ?thesis
    using e l g eq lexicographically_less_iff [of "elements a" "elements b"] by blast
qed

theorem comparison_operators_witness:
  "range_valid \<lparr>items_m = [1, 2, 0 :: int], size_m = 2, capacity_m = 3\<rparr> \<and>
   range_valid \<lparr>items_m = [1, 2, 3 :: int], size_m = 3, capacity_m = 3\<rparr> \<and>
   operator_eq \<lparr>items_m = [1, 2, 0 :: int], size_m = 2, capacity_m = 3\<rparr>
     \<lparr>items_m = [1, 2, 3], size_m = 3, capacity_m = 3\<rparr> = Inr False \<and>
   operator_less \<lparr>items_m = [1, 2, 0 :: int], size_m = 2, capacity_m = 3\<rparr>
     \<lparr>items_m = [1, 2, 3], size_m = 3, capacity_m = 3\<rparr> = Inr True \<and>
   operator_le \<lparr>items_m = [1, 2, 0 :: int], size_m = 2, capacity_m = 3\<rparr>
     \<lparr>items_m = [1, 2, 3], size_m = 3, capacity_m = 3\<rparr> = Inr True \<and>
   operator_greater \<lparr>items_m = [1, 2, 0 :: int], size_m = 2, capacity_m = 3\<rparr>
     \<lparr>items_m = [1, 2, 3], size_m = 3, capacity_m = 3\<rparr> = Inr False \<and>
   operator_ge \<lparr>items_m = [1, 2, 0 :: int], size_m = 2, capacity_m = 3\<rparr>
     \<lparr>items_m = [1, 2, 3], size_m = 3, capacity_m = 3\<rparr> = Inr False"
proof -
  let ?a = "\<lparr>items_m = [1, 2, 0 :: int], size_m = 2, capacity_m = 3\<rparr>"
  let ?b = "\<lparr>items_m = [1, 2, 3 :: int], size_m = 3, capacity_m = 3\<rparr>"
  have a: "range_valid ?a" and b: "range_valid ?b"
    by (simp_all add: range_valid_def)
  from comparison_operators [OF a b] obtain e l g where
    r: "operator_eq ?a ?b = Inr e" "operator_less ?a ?b = Inr l" "operator_less ?b ?a = Inr g"
      "operator_le ?a ?b = Inr (e \<or> l)" "operator_greater ?a ?b = Inr g"
      "operator_ge ?a ?b = Inr (e \<or> g)" and
    e: "e \<longleftrightarrow> GetSize ?a = GetSize ?b \<and> (\<forall>i<GetSize ?a. elements ?a ! i = elements ?b ! i)" and
    l: "l \<longleftrightarrow> lexicographically_less (elements ?a) (elements ?b)"
    by blast
  have "\<not> e"
    using e by (simp add: GetSize_def)
  moreover have "l"
    using l by (simp add: elements_def)
  moreover have "\<not> g"
    using r(3) by (simp add: operator_less_def lexicographical_compare.simps)
  ultimately show ?thesis
    using r a b by simp
qed

section \<open>Assignment operators\<close>

lemma swap_result: "swap this other = (other, this)"
  by (simp add: swap_def ArrayPtr_swap_def)

text \<open>
  Claim C9. For distinct vectors \<open>a\<close> and \<open>b\<close>, at the addresses \<open>this\<close> and \<open>rhs\<close>,
  move-assigning \<open>b\<close> into \<open>a\<close> swaps the two states when \<open>b\<close> is not empty. When \<open>b\<close> is
  empty, \<open>a\<close> is cleared instead: its size becomes 0, its capacity keeps its value, and
  \<open>b\<close> is not touched.
\<close>

theorem move_assign_distinct:
  assumes "this \<noteq> rhs"
  shows "(\<not> IsEmpty (h rhs) \<longrightarrow>
            move_assign this rhs h = h(this := h rhs, rhs := h this)) \<and>
         (IsEmpty (h rhs) \<longrightarrow>
            move_assign this rhs h = h(this := (h this)\<lparr>size_m := 0\<rparr>) \<and>
            GetSize (move_assign this rhs h this) = 0 \<and>
            GetCapacity (move_assign this rhs h this) = GetCapacity (h this) \<and>
            move_assign this rhs h rhs = h rhs)"
  using assms
  by (simp add: move_assign_def swap_result Clear_def GetSize_def GetCapacity_def)

theorem move_assign_distinct_witness:
  "(0 :: nat) \<noteq> 1 \<and>
   \<not> IsEmpty \<lparr>items_m = [7, 8 :: int], size_m = 1, capacity_m = 2\<rparr> \<and>
   move_assign 0 1
     ((\<lambda>_. SimpleVector_empty)
        (0 := \<lparr>items_m = [1, 2, 3 :: int], size_m = 3, capacity_m = 3\<rparr>,
         1 := \<lparr>items_m = [7, 8], size_m = 1, capacity_m = 2\<rparr>)) =
     (\<lambda>_. SimpleVector_empty)
        (0 := \<lparr>items_m = [7, 8], size_m = 1, capacity_m = 2\<rparr>,
         1 := \<lparr>items_m = [1, 2, 3], size_m = 3, capacity_m = 3\<rparr>) \<and>
   IsEmpty (SimpleVector_empty :: int SimpleVector) \<and>
   move_assign 0 1
     ((\<lambda>_. SimpleVector_empty)
        (0 := \<lparr>items_m = [1, 2, 3 :: int], size_m = 3, capacity_m = 3\<rparr>)) =
     (\<lambda>_. SimpleVector_empty)
        (0 := \<lparr>items_m = [1, 2, 3], size_m = 0, capacity_m = 3\<rparr>)"
proof -
  let ?a = "\<lparr>items_m = [1, 2, 3 :: int], size_m = 3, capacity_m = 3\<rparr>"
  let ?b = "\<lparr>items_m = [7, 8 :: int], size_m = 1, capacity_m = 2\<rparr>"
  let ?h = "(\<lambda>_. SimpleVector_empty)(0 := ?a, 1 := ?b) :: int store"
  let ?k = "(\<lambda>_. SimpleVector_empty)(0 := ?a) :: int store"
  have ne: "(0 :: nat) \<noteq> 1"
    by simp
  have b: "\<not> IsEmpty (?h 1)" "\<not> IsEmpty ?b"
    by (simp_all add: IsEmpty_def)
  have e: "IsEmpty (?k 1)" "IsEmpty (SimpleVector_empty :: int SimpleVector)"
    by (simp_all add: IsEmpty_def SimpleVector_empty_def)
  have "move_assign 0 1 ?h = ?h(0 := ?h 1, 1 := ?h 0)"
    using move_assign_distinct [OF ne, of ?h] b by blast
  moreover have "move_assign 0 1 ?k = ?k(0 := (?k 0)\<lparr>size_m := 0\<rparr>)"
    using move_assign_distinct [OF ne, of ?k] e by blast
  ultimately show ?thesis
    using b e by (simp add: fun_upd_twist)
qed

text \<open>
  Claim C10. Self-assignment is a no-op: copy-assigning a vector to itself and
  move-assigning it to itself both leave the store, and so the vector's size, capacity
  and elements, exactly as they were.
\<close>

theorem self_assignment_is_a_no_op:
  "copy_assign this this h = Inr h \<and> move_assign this this h = h"
  by (simp add: copy_assign_def move_assign_def)

section \<open>The invariant is established and kept\<close>

text \<open>
  The constructors from a size and from a list of values produce well-formed vectors,
  and \<^verbatim>\<open>Clear\<close>, \<^verbatim>\<open>PopBack\<close>, \<^verbatim>\<open>Reserve\<close> and \<^verbatim>\<open>Resize\<close> keep a vector well formed, as
  \<^verbatim>\<open>PushBack\<close>, \<^verbatim>\<open>Insert\<close> and \<^verbatim>\<open>Erase\<close> do (shown with their results above).
\<close>

lemma SimpleVector_empty_well_formed: "well_formed SimpleVector_empty"
  by (simp add: well_formed_def SimpleVector_empty_def)

lemma SimpleVector_fill_result:
  assumes "n \<le> PTRDIFF_MAX"
  shows "SimpleVector_fill n x = Inr \<lparr>items_m = replicate n x, size_m = n, capacity_m = n\<rparr>"
proof -
  have "std_fill (replicate n default) 0 n x = Inr (replicate n x)"
    by (subst std_fill_result) simp_all
  then show ?thesis
    using assms by (simp add: SimpleVector_fill_def ArrayPtr_result)
qed

lemma SimpleVector_init_result:
  assumes "length init \<le> PTRDIFF_MAX"
  shows "SimpleVector_init init =
    Inr \<lparr>items_m = init, size_m = length init, capacity_m = length init\<rparr>"
proof -
  have "std_copy init 0 (length init) (replicate (length init) default) 0 = Inr init"
    by (subst std_copy_result) simp_all
  then show ?thesis
    using assms by (simp add: SimpleVector_init_def ArrayPtr_result)
qed

lemma SimpleVector_init_well_formed:
  "length init \<le> PTRDIFF_MAX \<Longrightarrow> SimpleVector_init init = Inr v \<Longrightarrow>
   well_formed v \<and> elements v = init"
  by (auto simp: SimpleVector_init_result well_formed_def elements_def)

lemma Clear_well_formed: "well_formed v \<Longrightarrow> well_formed (Clear v)"
  by (simp add: well_formed_def Clear_def)

lemma PopBack_well_formed: "well_formed v \<Longrightarrow> PopBack v = Inr v' \<Longrightarrow> well_formed v'"
  by (auto simp: well_formed_def PopBack_def split: if_splits)

lemma Reserve_result:
  assumes "well_formed v" "capacity_m v < n" "n \<le> PTRDIFF_MAX"
  shows "Reserve n v =
    Inr (v\<lparr>capacity_m := n,
            items_m := elements v @ replicate (n - size_m v) default\<rparr>)"
proof -
  have "std_copy (items_m v) 0 (size_m v) (replicate n default) 0 =
      Inr (elements v @ replicate (n - size_m v) default)"
    using assms by (subst std_copy_result) (simp_all add: well_formed_def elements_def)
  then show ?thesis
    using assms by (simp add: Reserve_def ArrayPtr_result std_move_def)
qed

lemma Reserve_well_formed:
  assumes "well_formed v" "Reserve n v = Inr v'"
  shows "well_formed v' \<and> elements v' = elements v \<and> size_m v' = size_m v"
proof (cases "n \<le> capacity_m v")
  case True
  with assms show ?thesis
    by (simp add: Reserve_def)
next
  case False
  have "n \<le> PTRDIFF_MAX"
    using assms(2) False
    by (auto simp: Reserve_def and_then_eq_Inr ArrayPtr_def new_array_def split: if_splits)
  with assms False show ?thesis
    by (auto simp: Reserve_result well_formed_def elements_def)
qed

lemma Resize_grow:
  assumes "well_formed v" "capacity_m v < n" "max n (2 * capacity_m v) \<le> PTRDIFF_MAX"
  shows "Resize n v =
    Inr \<lparr>items_m = elements v @ replicate (n - size_m v) default
                 @ replicate (max n (2 * capacity_m v) - n) default,
         size_m = n, capacity_m = max n (2 * capacity_m v)\<rparr>"
proof -
  define c where "c = capacity_m v"
  define m where "m = max n (2 * c)"
  define s where "s = size_m v"
  have wf: "s \<le> c" "length (items_m v) = c" "c < n" "n \<le> m" "m \<le> PTRDIFF_MAX"
    using assms by (simp_all add: well_formed_def c_def m_def s_def)
  have w: "size_t (c * 2) = c * 2"
    using wf by (intro size_t_id) (simp add: m_def)
  have cap: "max n (c * 2) = m"
    by (simp add: m_def mult.commute)
  have alloc: "ArrayPtr m = Inr (replicate m default)"
    using wf by (simp add: ArrayPtr_result)
  have copy: "std_copy (items_m v) 0 s (replicate m default) 0 =
      Inr (elements v @ replicate (m - s) default)"
    using wf by (subst std_copy_result) (simp_all add: elements_def s_def)
  have len: "length (elements v) = s"
    using wf by (simp add: elements_def s_def)
  have "std_fill (elements v @ replicate (m - s) default) s n default =
      Inr (take s (elements v @ replicate (m - s) default) @ replicate (n - s) default
           @ drop n (elements v @ replicate (m - s) default))"
    using wf len by (subst std_fill_result) simp_all
  also have "take s (elements v @ replicate (m - s) default) = elements v"
    using len by simp
  also have "drop n (elements v @ replicate (m - s) (default :: 'a)) = replicate (m - n) default"
    using wf len by simp
  finally have fill: "std_fill (elements v @ replicate (m - s) default) s n default =
      Inr (elements v @ replicate (n - s) default @ replicate (m - n) default)" .
  have "Resize n v =
      Inr \<lparr>items_m = elements v @ replicate (n - s) default @ replicate (m - n) default,
           size_m = n, capacity_m = m\<rparr>"
    using wf
    by (simp add: Resize_def Let_def w cap alloc copy fill std_move_def flip: c_def s_def)
  then show ?thesis
    by (simp add: m_def c_def s_def)
qed

lemma std_fill_length: "std_fill a first last' val = Inr r \<Longrightarrow> length r = length a"
proof (induction a first last' val rule: std_fill.induct)
  case (1 a first last' val)
  from "1.prems" show ?case
    by (subst (asm) std_fill.simps) (auto split: if_splits dest: "1.IH" [rotated -1])
qed

lemma Resize_well_formed:
  assumes "well_formed v" "Resize n v = Inr v'"
  shows "well_formed v' \<and> size_m v' = n"
proof -
  consider (same) "size_m v = n"
    | (grow) "size_m v \<noteq> n" "size_m v < n" "capacity_m v < n"
    | (fill) "size_m v < n" "n < capacity_m v"
    | (rest) "size_m v \<noteq> n" "\<not> (size_m v < n \<and> capacity_m v < n)" "\<not> (size_m v < n \<and> n < capacity_m v)"
    by linarith
  then show ?thesis
  proof cases
    case same
    with assms show ?thesis
      by (simp add: Resize_def)
  next
    case grow
    define m where "m = max n (size_t (capacity_m v * 2))"
    from assms(2) grow obtain t t1 t2 where
      t: "ArrayPtr m = Inr t" and
      t1: "std_move (items_m v) 0 (size_m v) t 0 = Inr t1" and
      t2: "std_fill t1 (size_m v) n default = Inr t2" and
      v': "v' = \<lparr>items_m = t2, size_m = n, capacity_m = m\<rparr>"
      by (auto simp: Resize_def Let_def and_then_eq_Inr m_def)
    have "m \<le> PTRDIFF_MAX"
      using t grow by (auto simp: ArrayPtr_def new_array_def m_def split: if_splits)
    moreover have "length t2 = m"
      using t t1 t2 by (simp add: ArrayPtr_length std_copy_length std_fill_length std_move_def)
    moreover have "n \<le> m"
      by (simp add: m_def)
    ultimately show ?thesis
      using v' by (simp add: well_formed_def)
  next
    case fill
    with assms show ?thesis
      by (auto simp: Resize_def and_then_eq_Inr well_formed_def std_fill_length)
  next
    case rest
    with assms show ?thesis
      by (auto simp: Resize_def well_formed_def)
  qed
qed

text \<open>
  Copy assignment from another object, for comparison with the copy constructor below:
  the new array has as many slots as the source has elements, and that number is the
  new capacity.
\<close>

lemma copy_assign_distinct:
  assumes "this \<noteq> rhs" "range_valid (h rhs)" "size_m (h rhs) \<le> PTRDIFF_MAX"
  shows "copy_assign this rhs h =
    Inr (h(this :=
      if IsEmpty (h rhs) then Clear (h this)
      else \<lparr>items_m = elements (h rhs), size_m = size_m (h rhs), capacity_m = size_m (h rhs)\<rparr>))"
proof (cases "IsEmpty (h rhs)")
  case True
  with assms(1) show ?thesis
    by (simp add: copy_assign_def)
next
  case False
  define n where "n = size_m (h rhs)"
  have tmp: "SimpleVector_sized n =
      Inr \<lparr>items_m = replicate n default, size_m = n, capacity_m = n\<rparr>"
    using assms(3) by (simp add: SimpleVector_sized_def SimpleVector_fill_result n_def)
  have copy: "uninitialized_copy (items_m (h rhs)) 0 n (replicate n default) 0 =
      Inr (elements (h rhs))"
    unfolding uninitialized_copy_def using assms(2)
    by (subst std_copy_result) (simp_all add: range_valid_def elements_def n_def)
  show ?thesis
    using assms(1) False
    by (simp add: copy_assign_def tmp copy swap_result flip: n_def)
qed

section \<open>Where the code departs from its description\<close>

subsection \<open>The copy constructor\<close>

lemma SimpleVector_copy_result:
  assumes "range_valid other" "size_m other \<le> PTRDIFF_MAX"
  shows "SimpleVector_copy other =
    Inr \<lparr>items_m = elements other, size_m = size_m other, capacity_m = capacity_m other\<rparr>"
proof -
  have "std_copy (items_m other) 0 (size_m other) (replicate (size_m other) default) 0 =
      Inr (elements other)"
    using assms by (subst std_copy_result) (simp_all add: range_valid_def elements_def)
  then show ?thesis
    using assms by (simp add: SimpleVector_copy_def ArrayPtr_result uninitialized_copy_def)
qed

text \<open>The copy of a well-formed vector is well formed only when the source is full.\<close>

lemma SimpleVector_copy_well_formed_iff:
  assumes "well_formed other" "SimpleVector_copy other = Inr v"
  shows "well_formed v \<longleftrightarrow> size_m other = capacity_m other"
proof -
  have "range_valid other" "size_m other \<le> PTRDIFF_MAX"
    using assms(1) by (simp_all add: well_formed_def range_valid_def)
  then have "v = \<lparr>items_m = elements other, size_m = size_m other, capacity_m = capacity_m other\<rparr>"
    using assms(2) by (simp add: SimpleVector_copy_result)
  then show ?thesis
    using assms(1) by (auto simp: well_formed_def elements_def)
qed

text \<open>
  Claim C1 says that a copy has the size and the elements of its source and a capacity
  equal to the size of the source, so that its array has as many slots as its capacity
  says. The constructor allocates \<^verbatim>\<open>other.size_\<close> slots and sets \<^verbatim>\<open>capacity_\<close> to
  \<^verbatim>\<open>other.capacity_\<close>. Below, \<open>b\<close> is \<^verbatim>\<open>{1, 2}\<close> after \<^verbatim>\<open>PopBack()\<close>: its copy reports
  capacity 2 over an array of one slot, and \<^verbatim>\<open>PushBack\<close> on the copy then writes outside
  that array.
\<close>

theorem copy_constructor_keeps_source_capacity:
  "and_then (SimpleVector_init [1, 2 :: int]) PopBack =
     Inr \<lparr>items_m = [1, 2], size_m = 1, capacity_m = 2\<rparr> \<and>
   SimpleVector_copy \<lparr>items_m = [1, 2 :: int], size_m = 1, capacity_m = 2\<rparr> =
     Inr \<lparr>items_m = [1], size_m = 1, capacity_m = 2\<rparr> \<and>
   GetCapacity \<lparr>items_m = [1 :: int], size_m = 1, capacity_m = 2\<rparr> \<noteq>
     GetSize \<lparr>items_m = [1, 2 :: int], size_m = 1, capacity_m = 2\<rparr> \<and>
   length (items_m \<lparr>items_m = [1 :: int], size_m = 1, capacity_m = 2\<rparr>) \<noteq>
     GetCapacity \<lparr>items_m = [1 :: int], size_m = 1, capacity_m = 2\<rparr> \<and>
   PushBack 5 \<lparr>items_m = [1 :: int], size_m = 1, capacity_m = 2\<rparr> = Inl OutOfBounds"
  by (simp add: SimpleVector_init_def PopBack_def SimpleVector_copy_def PushBack_def
      GetCapacity_def GetSize_def run_simps)

subsection \<open>\<^verbatim>\<open>Resize\<close> up to the capacity\<close>

lemma Resize_within_capacity:
  assumes "well_formed v" "size_m v < n" "n < capacity_m v"
  shows "Resize n v =
    Inr (v\<lparr>items_m := take (size_m v) (items_m v) @ replicate (n - size_m v) default
                 @ drop n (items_m v),
            size_m := n\<rparr>)"
proof -
  have "std_fill (items_m v) (size_m v) n default =
      Inr (take (size_m v) (items_m v) @ replicate (n - size_m v) default @ drop n (items_m v))"
    using assms by (subst std_fill_result) (simp_all add: well_formed_def)
  then show ?thesis
    using assms by (simp add: Resize_def)
qed

lemma Resize_to_capacity:
  assumes "size_m v < capacity_m v"
  shows "Resize (capacity_m v) v = Inr (v\<lparr>size_m := capacity_m v\<rparr>)"
  using assms by (simp add: Resize_def)

text \<open>
  Claim C2 says that \<^verbatim>\<open>Resize(n)\<close> with \<open>s < n \<le> c\<close> sets the slots from \<open>s\<close> to \<open>n\<close> to
  \<^verbatim>\<open>Type{}\<close>, the case \<open>n = c\<close> included. The branch that does so is guarded by
  \<^verbatim>\<open>capacity_ > new_size\<close>, so \<open>n = c\<close> takes the last branch, which only sets the size.
  Below, \<^verbatim>\<open>{1, 2, 3}\<close> after \<^verbatim>\<open>PopBack()\<close> and \<^verbatim>\<open>Resize(3)\<close> has 3 at index 2 again.
\<close>

theorem Resize_to_capacity_keeps_old_slot:
  "and_then (SimpleVector_init [1, 2, 3 :: int]) PopBack =
     Inr \<lparr>items_m = [1, 2, 3], size_m = 2, capacity_m = 3\<rparr> \<and>
   Resize 3 \<lparr>items_m = [1, 2, 3 :: int], size_m = 2, capacity_m = 3\<rparr> =
     Inr \<lparr>items_m = [1, 2, 3], size_m = 3, capacity_m = 3\<rparr> \<and>
   At \<lparr>items_m = [1, 2, 3 :: int], size_m = 3, capacity_m = 3\<rparr> 2 = Inr 3 \<and>
   (default :: int) = 0"
  by (simp add: SimpleVector_init_def PopBack_def Resize_def At_def run_simps)

subsection \<open>The assertion of unchecked access\<close>

lemma subscript_assert_iff: "subscript v i = Inl AssertFail \<longleftrightarrow> size_m v < i"
  by (auto simp: subscript_def ArrayPtr_get_def)

text \<open>
  Claim C3 says that \<^verbatim>\<open>operator[]\<close> fails its assertion for every index \<open>i \<ge> s\<close> and for
  no index \<open>i < s\<close>. The assertion is \<^verbatim>\<open>size_ >= index\<close>, so it lets \<open>i = s\<close> pass: on a
  full vector the access then falls outside the array, and on one with spare capacity
  it reads a slot that is not part of the content.
\<close>

theorem subscript_at_size_passes_assertion:
  "subscript \<lparr>items_m = [1, 2, 3 :: int], size_m = 3, capacity_m = 3\<rparr> 3 = Inl OutOfBounds \<and>
   subscript \<lparr>items_m = [1, 2, 3 :: int], size_m = 2, capacity_m = 3\<rparr> 2 = Inr 3 \<and>
   subscript \<lparr>items_m = [1, 2, 3 :: int], size_m = 3, capacity_m = 3\<rparr> 4 = Inl AssertFail"
  by (simp add: subscript_def run_simps)

end
